theory Spec2Isabelle
  imports Complex_Main "HOL-Library.Sublist"
begin

section \<open>Bank management system: data model\<close>

text \<open>
  The application keeps two tables in a relational store (\<open>users\<close>, \<open>accounts\<close>) and
  reaches them through one cached connection. The model is a single record holding the
  tables as the connection sees them, the scripted behaviour of the outside world (errors
  the store raises, outcomes of connection attempts), the cache of \<open>connect\<close>, and a
  log of everything the code prints, sleeps or shows.

  Amounts and balances are two types. An amount (\<open>'a\<close>) is the Python float that the
  UI passes on (\<open>float(amount)\<close>); a balance (\<open>'m\<close>) is a value of the \<open>balance\<close>
  column, which the connector hands back to Python. The \<open>accounts\<close> table is created
  outside the source files, so the column's type, and with it every computation that
  mixes the two, is a parameter of the model (\<open>arithmetic\<close> below).
\<close>

text \<open>\<open>mysql.connector.Error\<close>, carrying the text that \<open>str(err)\<close> yields.\<close>

datatype db_error = Error string

fun str :: "db_error \<Rightarrow> string" where
  "str (Error s) = s"

text \<open>A row of \<open>users\<close> (\<open>created_at\<close> is never read and is left out).\<close>

record user_row =
  u_id :: int
  u_email :: string
  u_password_hash :: string

text \<open>A row of \<open>accounts\<close>, in the column order \<open>id, name, email, balance\<close>.\<close>

record 'm account_row =
  a_id :: int
  a_name :: string
  a_email :: string
  a_balance :: "'m"

text \<open>The statements the source sends through \<open>cursor.execute\<close>, and \<open>db.commit()\<close>.\<close>

datatype 'a sql =
    INSERT_users string string
  | SELECT_password_hash string
  | INSERT_accounts string string "'a"
  | SELECT_accounts
  | SELECT_balance int
  | UPDATE_balance_minus "'a" int
  | UPDATE_balance_plus "'a" int
  | SELECT_name_balance int
  | COMMIT

text \<open>
  Every text the source returns or shows, one constructor per string template; the
  arguments are the values the template interpolates.
\<close>

datatype 'm message =
    Registration_successful
  | Email_already_registered
  | Database_error db_error
  | Credentials_verified
  | Incorrect_password
  | Email_not_found
  | Authentication_error db_error
  | Account_created
  | Error_creating_account db_error
  | Account_ID_not_found
  | Insufficient_balance "'m"
  | Invalid_operation_type
  | Not_found_or_no_change
  | Successful string
  | Transaction_error db_error
  | ACCOUNT_NOT_FOUND
  | Error_checking_balance db_error
  | Error_fetching_accounts db_error
  | Connection_failed
  | Attempt_failed nat nat db_error
  | Amount_must_be_positive
  | Enter_valid_account_id
  | Updated_balance int "'m"
  | No_accounts_found

text \<open>What the process does besides returning: console output, sleeping, UI elements.\<close>

datatype 'm event =
    Print "'m message"
  | Sleep nat
  | St_error "'m message"
  | St_success "'m message"
  | St_warning "'m message"
  | St_write "'m message"
  | St_info "'m message"
  | St_data_editor "string list" "'m account_row list"

section \<open>Amounts, balances and their arithmetic\<close>

text \<open>
  Where the source brings an amount and a balance together, it is never the repository's
  own code that computes. Python evaluates \<open>current_balance < amount\<close> and
  \<open>amount <= 0\<close>; the store evaluates \<open>balance - %s\<close> and \<open>balance + %s\<close> on the
  parameter the connector wrote into the statement, and assigns the result to the column
  at the column's precision; and the store converts an inserted amount to the column's
  type. Each of these is a field of the record below, and no relation between them is
  built in.
\<close>

record ('a, 'm) arithmetic =
  py_less :: "'m \<Rightarrow> 'a \<Rightarrow> bool"
  py_nonpositive :: "'a \<Rightarrow> bool"
  sql_minus :: "'m \<Rightarrow> 'a \<Rightarrow> 'm"
  sql_plus :: "'m \<Rightarrow> 'a \<Rightarrow> 'm"
  sql_value :: "'a \<Rightarrow> 'm"

text \<open>
  Exact arithmetic: amounts and balances of one type, a linearly ordered abelian group,
  compared and computed without rounding.
\<close>

definition exact_arithmetic :: "('m::linordered_ab_group_add, 'm) arithmetic" where
  "exact_arithmetic =
     \<lparr>py_less = (\<lambda>b x. b < x), py_nonpositive = (\<lambda>x. x \<le> 0),
      sql_minus = (\<lambda>b x. b - x), sql_plus = (\<lambda>b x. b + x), sql_value = (\<lambda>x. x)\<rparr>"

text \<open>
  Modelled from the spec: the \<open>accounts\<close> table is not declared in the source files;
  the spec gives \<open>balance\<close> as a fixed-point decimal of currency units with two decimal
  places. A balance is then a whole number of hundredths, which the connector hands to
  Python as a \<open>Decimal\<close>. A Python float has two readings: its exact binary value, which
  Python's comparisons use (a \<open>Decimal\<close> is compared with a float exactly), and the
  decimal literal its \<open>repr\<close> prints, which the connector writes into the statement and
  the store computes with. The store computes exactly and rounds what it assigns to the
  column to two places, half away from zero.
\<close>

record pyfloat =
  exact_value :: rat
  repr_value :: rat

text \<open>A float whose \<open>repr\<close> prints its binary value exactly, such as 25.0 or 0.125.\<close>

definition dyadic :: "rat \<Rightarrow> pyfloat" where
  "dyadic v = \<lparr>exact_value = v, repr_value = v\<rparr>"

text \<open>The float \<open>0.1\<close>: a little above one tenth, printed as \<open>0.1\<close>.\<close>

definition float_tenth :: pyfloat where
  "float_tenth =
     \<lparr>exact_value = 3602879701896397 / 36028797018963968, repr_value = 1 / 10\<rparr>"

definition to_column :: "rat \<Rightarrow> int" where
  "to_column v = (if 0 \<le> v then \<lfloor>v * 100 + 1 / 2\<rfloor> else - \<lfloor>- v * 100 + 1 / 2\<rfloor>)"

definition decimal2 :: "(pyfloat, int) arithmetic" where
  "decimal2 =
     \<lparr>py_less = (\<lambda>b x. of_int b / 100 < exact_value x),
      py_nonpositive = (\<lambda>x. exact_value x \<le> 0),
      sql_minus = (\<lambda>b x. to_column (of_int b / 100 - repr_value x)),
      sql_plus = (\<lambda>b x. to_column (of_int b / 100 + repr_value x)),
      sql_value = (\<lambda>x. to_column (repr_value x))\<rparr>"

section \<open>The process and its environment\<close>

text \<open>
  One call of \<open>mysql.connector.connect\<close> either raises or returns a connection object,
  whose \<open>is_connected()\<close> is then true or false.
\<close>

datatype attempt_outcome = Raises db_error | Opens bool

text \<open>
  \<open>faults\<close> scripts the store: each call of \<open>db.cursor()\<close>, \<open>cursor.execute\<close> and
  \<open>db.commit()\<close> takes the next entry, and \<open>Some err\<close> makes the call raise \<open>err\<close>;
  an exhausted script raises nothing. These are the errors whose cause lies outside the
  tables (a lost connection, a limit, a permission); violating the unique key of
  \<open>users.email\<close> is computed from the table instead. \<open>server\<close> scripts the connection
  attempts in the same way; an exhausted script opens a live connection. A connection
  handle is the number of the \<open>mysql.connector.connect\<close> call that opened it.
  \<open>arith\<close> is the arithmetic of the interpreter and the store this process runs on.
\<close>

record ('a, 'm) process =
  arith :: "('a, 'm) arithmetic"
  users :: "user_row list"
  accounts :: "'m account_row list"
  next_user_id :: int
  next_account_id :: int
  faults :: "db_error option list"
  issued :: "'a sql list"
  server :: "attempt_outcome list"
  connect_calls :: nat
  cache :: "nat option"
  events :: "'m event list"

text \<open>
  A healthy store: nothing is scripted to go wrong, so every connection attempt opens a
  live connection and no call on the connection raises.
\<close>

definition healthy :: "('a, 'm) process \<Rightarrow> bool" where
  "healthy p = (faults p = [] \<and> server p = [])"

definition emit :: "'m event \<Rightarrow> ('a, 'm) process \<Rightarrow> ('a, 'm) process" where
  "emit e p = p\<lparr>events := events p @ [e]\<rparr>"

section \<open>Connection manager (db_config.py)\<close>

definition MAX_RETRIES :: nat where
  "MAX_RETRIES = 5"

definition RETRY_DELAY :: nat where
  "RETRY_DELAY = 2"

definition mysql_connect :: "('a, 'm) process \<Rightarrow> (db_error + nat \<times> bool) \<times> ('a, 'm) process" where
  "mysql_connect p =
     (let n = connect_calls p;
          q = p\<lparr>server := tl (server p), connect_calls := Suc n\<rparr>
      in case server p of
           [] \<Rightarrow> (Inr (n, True), q)
         | Raises err # _ \<Rightarrow> (Inl err, q)
         | Opens is_connected # _ \<Rightarrow> (Inr (n, is_connected), q))"

text \<open>
  The body of \<open>connect\<close>: the loop over \<open>range(MAX_RETRIES)\<close>. \<open>None\<close> is
  \<open>st.stop()\<close>: the script run ends there and nothing is returned to the caller. The
  first equation is the \<open>st.stop()\<close> after the loop.
\<close>

fun connect_attempts :: "nat list \<Rightarrow> ('a, 'm) process \<Rightarrow> nat option \<times> ('a, 'm) process" where
  "connect_attempts [] p = (None, p)"
| "connect_attempts (attempt # rest) p =
     (case mysql_connect p of
        (Inr (db, is_connected), p1) \<Rightarrow>
          if is_connected then (Some db, p1) else connect_attempts rest p1
      | (Inl err, p1) \<Rightarrow>
          (let p2 = emit (Print (Attempt_failed (attempt + 1) MAX_RETRIES err)) p1
           in if attempt < MAX_RETRIES - 1
              then connect_attempts rest (emit (Sleep RETRY_DELAY) p2)
              else (None, emit (St_error Connection_failed) p2)))"

text \<open>
  \<open>@st.cache_resource\<close>: a call that finds a cached handle returns it and runs nothing;
  otherwise the body runs and a returned handle is cached. A run ended by \<open>st.stop()\<close>
  caches nothing. \<open>connect.clear()\<close> empties the cache.
\<close>

definition connect :: "('a, 'm) process \<Rightarrow> nat option \<times> ('a, 'm) process" where
  "connect p =
     (case cache p of
        Some db \<Rightarrow> (Some db, p)
      | None \<Rightarrow>
          (case connect_attempts [0..<MAX_RETRIES] p of
             (Some db, p1) \<Rightarrow> (Some db, p1\<lparr>cache := Some db\<rparr>)
           | (None, p1) \<Rightarrow> (None, p1)))"

definition connect_clear :: "('a, 'm) process \<Rightarrow> ('a, 'm) process" where
  "connect_clear p = p\<lparr>cache := None\<rparr>"

section \<open>The relational store, as the connection sees it\<close>

text \<open>\<open>db.cursor()\<close>.\<close>

definition cursor :: "('a, 'm) process \<Rightarrow> db_error option \<times> ('a, 'm) process" where
  "cursor p =
     (case faults p of
        [] \<Rightarrow> (None, p)
      | f # fs \<Rightarrow> (f, p\<lparr>faults := fs\<rparr>))"

text \<open>Handing a statement to the store: it is recorded, and the store may raise.\<close>

definition issue :: "'a sql \<Rightarrow> ('a, 'm) process \<Rightarrow> db_error option \<times> ('a, 'm) process" where
  "issue q p =
     (case faults p of
        [] \<Rightarrow> (None, p\<lparr>issued := issued p @ [q]\<rparr>)
      | f # fs \<Rightarrow> (f, p\<lparr>faults := fs, issued := issued p @ [q]\<rparr>))"

definition commit :: "('a, 'm) process \<Rightarrow> db_error option \<times> ('a, 'm) process" where
  "commit p = issue COMMIT p"

text \<open>
  The error MySQL raises when an insert violates a unique key, as the connector prints
  it: \<open>1062 (23000): Duplicate entry '<value>' for key '<key>'\<close>.
\<close>

definition duplicate_entry :: "string \<Rightarrow> string \<Rightarrow> db_error" where
  "duplicate_entry v k =
     Error (''1062 (23000): Duplicate entry '' @ [CHR 0x27] @ v @ [CHR 0x27] @
            '' for key '' @ [CHR 0x27] @ k @ [CHR 0x27])"

text \<open>
  \<open>INSERT INTO users (email, password_hash) VALUES (%s, %s)\<close>, under the schema of
  \<open>create_user_table\<close>: \<open>id\<close> auto-increments and \<open>email\<close> is \<open>UNIQUE\<close>.
\<close>

definition execute_INSERT_users ::
  "string \<Rightarrow> string \<Rightarrow> ('a, 'm) process \<Rightarrow> db_error option \<times> ('a, 'm) process" where
  "execute_INSERT_users email hash p =
     (case issue (INSERT_users email hash) p of
        (Some err, p1) \<Rightarrow> (Some err, p1)
      | (None, p1) \<Rightarrow>
          if email \<in> set (map u_email (users p1))
          then (Some (duplicate_entry email ''users.email''), p1)
          else (None, p1\<lparr>users := users p1 @
                  [\<lparr>u_id = next_user_id p1, u_email = email, u_password_hash = hash\<rparr>],
                  next_user_id := next_user_id p1 + 1\<rparr>))"

text \<open>\<open>SELECT password_hash FROM users WHERE email = %s\<close>: the result rows.\<close>

definition execute_SELECT_password_hash ::
  "string \<Rightarrow> ('a, 'm) process \<Rightarrow> (db_error + string list) \<times> ('a, 'm) process" where
  "execute_SELECT_password_hash email p =
     (case issue (SELECT_password_hash email) p of
        (Some err, p1) \<Rightarrow> (Inl err, p1)
      | (None, p1) \<Rightarrow>
          (Inr (map u_password_hash (filter (\<lambda>r. u_email r = email) (users p1))), p1))"

text \<open>
  Modelled from the spec: the \<open>accounts\<close> table is created outside the source files;
  the spec gives it as \<open>accounts(id autoincrement PK, name, email, balance)\<close>.
  \<open>INSERT INTO accounts (name, email, balance) VALUES (%s, %s, %s)\<close>:
\<close>

definition execute_INSERT_accounts ::
  "string \<Rightarrow> string \<Rightarrow> 'a \<Rightarrow> ('a, 'm) process \<Rightarrow> db_error option \<times> ('a, 'm) process" where
  "execute_INSERT_accounts name email balance p =
     (case issue (INSERT_accounts name email balance) p of
        (Some err, p1) \<Rightarrow> (Some err, p1)
      | (None, p1) \<Rightarrow>
          (None, p1\<lparr>accounts := accounts p1 @
                  [\<lparr>a_id = next_account_id p1, a_name = name, a_email = email,
                    a_balance = sql_value (arith p1) balance\<rparr>],
                  next_account_id := next_account_id p1 + 1\<rparr>))"

text \<open>
  \<open>SELECT id, name, email, balance FROM accounts\<close>: \<open>cursor.description\<close> (its column
  names, present also when no row matches) and the rows.
\<close>

definition execute_SELECT_accounts ::
  "('a, 'm) process \<Rightarrow> (db_error + string list \<times> 'm account_row list) \<times> ('a, 'm) process" where
  "execute_SELECT_accounts p =
     (case issue SELECT_accounts p of
        (Some err, p1) \<Rightarrow> (Inl err, p1)
      | (None, p1) \<Rightarrow> (Inr ([''id'', ''name'', ''email'', ''balance''], accounts p1), p1))"

text \<open>\<open>SELECT balance FROM accounts WHERE id = %s\<close>.\<close>

definition execute_SELECT_balance ::
  "int \<Rightarrow> ('a, 'm) process \<Rightarrow> (db_error + 'm list) \<times> ('a, 'm) process" where
  "execute_SELECT_balance acc_id p =
     (case issue (SELECT_balance acc_id) p of
        (Some err, p1) \<Rightarrow> (Inl err, p1)
      | (None, p1) \<Rightarrow>
          (Inr (map a_balance (filter (\<lambda>r. a_id r = acc_id) (accounts p1))), p1))"

text \<open>\<open>SELECT name, balance FROM accounts where id= %s\<close>.\<close>

definition execute_SELECT_name_balance ::
  "int \<Rightarrow> ('a, 'm) process \<Rightarrow> (db_error + (string \<times> 'm) list) \<times> ('a, 'm) process" where
  "execute_SELECT_name_balance acc_id p =
     (case issue (SELECT_name_balance acc_id) p of
        (Some err, p1) \<Rightarrow> (Inl err, p1)
      | (None, p1) \<Rightarrow>
          (Inr (map (\<lambda>r. (a_name r, a_balance r))
                  (filter (\<lambda>r. a_id r = acc_id) (accounts p1))), p1))"

text \<open>
  \<open>UPDATE accounts SET balance = balance - %s WHERE id = %s\<close> and its \<open>+\<close> twin, with
  the parameters bound: what the statement does to one row. The balance the row then
  holds is the store's result for the float it was sent, at the precision of the column.
\<close>

fun apply_update ::
  "('a, 'm) arithmetic \<Rightarrow> 'a sql \<Rightarrow> 'm account_row \<Rightarrow> 'm account_row" where
  "apply_update ar (UPDATE_balance_minus x i) r =
     (if a_id r = i then r\<lparr>a_balance := sql_minus ar (a_balance r) x\<rparr> else r)"
| "apply_update ar (UPDATE_balance_plus x i) r =
     (if a_id r = i then r\<lparr>a_balance := sql_plus ar (a_balance r) x\<rparr> else r)"
| "apply_update ar _ r = r"

text \<open>
  Executing an update returns \<open>cursor.rowcount\<close>. The connection is opened without the
  \<open>FOUND_ROWS\<close> client flag, so MySQL counts the rows whose stored value changed, not
  the rows the \<open>WHERE\<close> clause matched (the source's message says as much:
  \<open>Account ID not found or no change made\<close>).
\<close>

definition execute_update ::
  "'a sql \<Rightarrow> ('a, 'm) process \<Rightarrow> (db_error + nat) \<times> ('a, 'm) process" where
  "execute_update q p =
     (case issue q p of
        (Some err, p1) \<Rightarrow> (Inl err, p1)
      | (None, p1) \<Rightarrow>
          (Inr (length (filter (\<lambda>r. apply_update (arith p1) q r \<noteq> r) (accounts p1))),
           p1\<lparr>accounts := map (apply_update (arith p1) q) (accounts p1)\<rparr>))"

text \<open>\<open>cursor.fetchone()\<close>: the first row of the result, or \<open>None\<close>.\<close>

definition fetchone :: "'a list \<Rightarrow> 'a option" where
  "fetchone rows = (case rows of [] \<Rightarrow> None | r # _ \<Rightarrow> Some r)"

section \<open>Credential store (bank_app.py)\<close>

text \<open>
  The hashing primitive is outside the repository: \<open>hashpw\<close> stands for
  \<open>bcrypt.hashpw(password, salt)\<close>, \<open>salt\<close> for the value \<open>bcrypt.gensalt()\<close> draws
  in this call, and \<open>checkpw\<close> for \<open>bcrypt.checkpw(password, stored_hash)\<close>.
\<close>

text \<open>The \<open>try\<close> block of \<open>register_user\<close>; \<open>Inl\<close> is a raised \<open>mysql.connector.Error\<close>.\<close>

definition register_user_try ::
  "(string \<Rightarrow> string \<Rightarrow> string) \<Rightarrow> string \<Rightarrow> string \<Rightarrow> string \<Rightarrow> ('a, 'm) process
     \<Rightarrow> (db_error + bool \<times> 'm message) \<times> ('a, 'm) process" where
  "register_user_try hashpw salt email password p =
     (case cursor p of
        (Some err, p1) \<Rightarrow> (Inl err, p1)
      | (None, p1) \<Rightarrow>
          (let hashed_password = hashpw password salt
           in case execute_INSERT_users email hashed_password p1 of
                (Some err, p2) \<Rightarrow> (Inl err, p2)
              | (None, p2) \<Rightarrow>
                  (case commit p2 of
                     (Some err, p3) \<Rightarrow> (Inl err, p3)
                   | (None, p3) \<Rightarrow> (Inr (True, Registration_successful), p3))))"

definition register_user ::
  "(string \<Rightarrow> string \<Rightarrow> string) \<Rightarrow> string \<Rightarrow> string \<Rightarrow> string \<Rightarrow> ('a, 'm) process
     \<Rightarrow> (bool \<times> 'm message) option \<times> ('a, 'm) process" where
  "register_user hashpw salt email password p =
     (case connect p of
        (None, p0) \<Rightarrow> (None, p0)
      | (Some db, p0) \<Rightarrow>
          (case register_user_try hashpw salt email password p0 of
             (Inr r, p1) \<Rightarrow> (Some r, p1)
           | (Inl err, p1) \<Rightarrow>
               if sublist ''Duplicate entry'' (str err) \<and> sublist ''email'' (str err)
               then (Some (False, Email_already_registered), p1)
               else (Some (False, Database_error err), p1)))"

definition authenticate_user_try ::
  "(string \<Rightarrow> string \<Rightarrow> bool) \<Rightarrow> string \<Rightarrow> string \<Rightarrow> ('a, 'm) process
     \<Rightarrow> (db_error + bool \<times> 'm message) \<times> ('a, 'm) process" where
  "authenticate_user_try checkpw email password p =
     (case cursor p of
        (Some err, p1) \<Rightarrow> (Inl err, p1)
      | (None, p1) \<Rightarrow>
          (case execute_SELECT_password_hash email p1 of
             (Inl err, p2) \<Rightarrow> (Inl err, p2)
           | (Inr rows, p2) \<Rightarrow>
               (case fetchone rows of
                  Some stored_hash \<Rightarrow>
                    if checkpw password stored_hash
                    then (Inr (True, Credentials_verified), p2)
                    else (Inr (False, Incorrect_password), p2)
                | None \<Rightarrow> (Inr (False, Email_not_found), p2))))"

definition authenticate_user ::
  "(string \<Rightarrow> string \<Rightarrow> bool) \<Rightarrow> string \<Rightarrow> string \<Rightarrow> ('a, 'm) process
     \<Rightarrow> (bool \<times> 'm message) option \<times> ('a, 'm) process" where
  "authenticate_user checkpw email password p =
     (case connect p of
        (None, p0) \<Rightarrow> (None, p0)
      | (Some db, p0) \<Rightarrow>
          (case authenticate_user_try checkpw email password p0 of
             (Inr r, p1) \<Rightarrow> (Some r, p1)
           | (Inl err, p1) \<Rightarrow> (Some (False, Authentication_error err), p1)))"

section \<open>Account ledger (bank_app.py)\<close>

definition create_account_db_try ::
  "string \<Rightarrow> string \<Rightarrow> 'a \<Rightarrow> ('a, 'm) process \<Rightarrow> (db_error + bool \<times> 'm message) \<times> ('a, 'm) process" where
  "create_account_db_try name email balance p =
     (case cursor p of
        (Some err, p1) \<Rightarrow> (Inl err, p1)
      | (None, p1) \<Rightarrow>
          (case execute_INSERT_accounts name email balance p1 of
             (Some err, p2) \<Rightarrow> (Inl err, p2)
           | (None, p2) \<Rightarrow>
               (case commit p2 of
                  (Some err, p3) \<Rightarrow> (Inl err, p3)
                | (None, p3) \<Rightarrow> (Inr (True, Account_created), connect_clear p3))))"

definition create_account_db ::
  "string \<Rightarrow> string \<Rightarrow> 'a \<Rightarrow> ('a, 'm) process \<Rightarrow> (bool \<times> 'm message) option \<times> ('a, 'm) process" where
  "create_account_db name email balance p =
     (case connect p of
        (None, p0) \<Rightarrow> (None, p0)
      | (Some db, p0) \<Rightarrow>
          (case create_account_db_try name email balance p0 of
             (Inr r, p1) \<Rightarrow> (Some r, p1)
           | (Inl err, p1) \<Rightarrow> (Some (False, Error_creating_account err), p1)))"

definition get_all_accounts ::
  "('a, 'm) process \<Rightarrow> (string list \<times> 'm account_row list) option \<times> ('a, 'm) process" where
  "get_all_accounts p =
     (case connect p of
        (None, p0) \<Rightarrow> (None, p0)
      | (Some db, p0) \<Rightarrow>
          (case cursor p0 of
             (Some err, p1) \<Rightarrow> (Some ([], []), emit (St_error (Error_fetching_accounts err)) p1)
           | (None, p1) \<Rightarrow>
               (case execute_SELECT_accounts p1 of
                  (Inl err, p2) \<Rightarrow>
                    (Some ([], []), emit (St_error (Error_fetching_accounts err)) p2)
                | (Inr (column_names, all_rows), p2) \<Rightarrow> (Some (column_names, all_rows), p2))))"

text \<open>
  Lines 200 to 209 of \<open>update_balance\<close>: the chosen statement is executed with
  \<open>(amount, acc_id)\<close> bound, then row count, commit, cache clearing and the message.
\<close>

definition update_balance_execute ::
  "('a \<Rightarrow> int \<Rightarrow> 'a sql) \<Rightarrow> int \<Rightarrow> 'a \<Rightarrow> string \<Rightarrow> ('a, 'm) process
     \<Rightarrow> (db_error + bool \<times> 'm message) \<times> ('a, 'm) process" where
  "update_balance_execute sql acc_id amount operation p =
     (case execute_update (sql amount acc_id) p of
        (Inl err, p1) \<Rightarrow> (Inl err, p1)
      | (Inr rowcount, p1) \<Rightarrow>
          if rowcount = 0 then (Inr (False, Not_found_or_no_change), p1)
          else (case commit p1 of
                  (Some err, p2) \<Rightarrow> (Inl err, p2)
                | (None, p2) \<Rightarrow>
                    (let p3 = connect_clear p2;
                         action_word =
                           (if operation = ''DEPOSIT'' then ''DEPOSITED'' else ''WITHDRAWAL'')
                     in (Inr (True, Successful action_word), p3))))"

text \<open>
  The \<open>try\<close> block of \<open>update_balance\<close>. The test \<open>current_balance < amount\<close> is
  Python's, on the value the connector returned for the column and the float.
\<close>

definition update_balance_try ::
  "int \<Rightarrow> 'a \<Rightarrow> string \<Rightarrow> ('a, 'm) process
     \<Rightarrow> (db_error + bool \<times> 'm message) \<times> ('a, 'm) process" where
  "update_balance_try acc_id amount operation p =
     (case cursor p of
        (Some err, p1) \<Rightarrow> (Inl err, p1)
      | (None, p1) \<Rightarrow>
          if operation = ''WITHDRAW'' then
            (case execute_SELECT_balance acc_id p1 of
               (Inl err, p2) \<Rightarrow> (Inl err, p2)
             | (Inr rows, p2) \<Rightarrow>
                 (case fetchone rows of
                    None \<Rightarrow> (Inr (False, Account_ID_not_found), p2)
                  | Some current_balance \<Rightarrow>
                      if py_less (arith p2) current_balance amount
                      then (Inr (False, Insufficient_balance current_balance), p2)
                      else update_balance_execute UPDATE_balance_minus
                             acc_id amount operation p2))
          else if operation = ''DEPOSIT'' then
            update_balance_execute UPDATE_balance_plus acc_id amount operation p1
          else (Inr (False, Invalid_operation_type), p1))"

definition update_balance ::
  "int \<Rightarrow> 'a \<Rightarrow> string \<Rightarrow> ('a, 'm) process
     \<Rightarrow> (bool \<times> 'm message) option \<times> ('a, 'm) process" where
  "update_balance acc_id amount operation p =
     (case connect p of
        (None, p0) \<Rightarrow> (None, p0)
      | (Some db, p0) \<Rightarrow>
          (case update_balance_try acc_id amount operation p0 of
             (Inr r, p1) \<Rightarrow> (Some r, p1)
           | (Inl err, p1) \<Rightarrow> (Some (False, Transaction_error err), p1)))"

text \<open>
  The second component of what \<open>get_balance\<close> returns: the dictionary
  \<open>{"name": ..., "balance": ...}\<close> or a text.
\<close>

datatype 'm payload = Dict string "'m" | Text "'m message"

definition get_balance_try ::
  "int \<Rightarrow> ('a, 'm) process \<Rightarrow> (db_error + bool \<times> 'm payload) \<times> ('a, 'm) process" where
  "get_balance_try acc_id p =
     (case cursor p of
        (Some err, p1) \<Rightarrow> (Inl err, p1)
      | (None, p1) \<Rightarrow>
          (case execute_SELECT_name_balance acc_id p1 of
             (Inl err, p2) \<Rightarrow> (Inl err, p2)
           | (Inr rows, p2) \<Rightarrow>
               (case fetchone rows of
                  Some result \<Rightarrow> (Inr (True, Dict (fst result) (snd result)), p2)
                | None \<Rightarrow> (Inr (False, Text ACCOUNT_NOT_FOUND), p2))))"

definition get_balance ::
  "int \<Rightarrow> ('a, 'm) process \<Rightarrow> (bool \<times> 'm payload) option \<times> ('a, 'm) process" where
  "get_balance acc_id p =
     (case connect p of
        (None, p0) \<Rightarrow> (None, p0)
      | (Some db, p0) \<Rightarrow>
          (case get_balance_try acc_id p0 of
             (Inr r, p1) \<Rightarrow> (Some r, p1)
           | (Inl err, p1) \<Rightarrow> (Some (False, Text (Error_checking_balance err)), p1)))"

section \<open>User interface (bank_app.py)\<close>

text \<open>
  \<open>str.upper()\<close> on ASCII text (the callers pass \<open>Deposit\<close> and \<open>Withdraw\<close>); other
  characters are left as they are.
\<close>

definition upper_char :: "char \<Rightarrow> char" where
  "upper_char c =
     (let n = of_char c :: nat
      in if 97 \<le> n \<and> n \<le> 122 then char_of (n - 32) else c)"

definition upper :: "string \<Rightarrow> string" where
  "upper s = map upper_char s"

text \<open>
  \<open>view_accounts_ui\<close>, from the call of \<open>get_all_accounts\<close> on. \<open>None\<close>: the run was
  stopped.
\<close>

definition view_accounts_ui :: "('a, 'm) process \<Rightarrow> unit option \<times> ('a, 'm) process" where
  "view_accounts_ui p =
     (case get_all_accounts p of
        (None, p1) \<Rightarrow> (None, p1)
      | (Some (column_names, all_rows), p1) \<Rightarrow>
          if all_rows \<noteq> [] then (Some (), emit (St_data_editor column_names all_rows) p1)
          else (Some (), emit (St_info No_accounts_found) p1))"

text \<open>
  \<open>transaction_ui\<close>, the block under \<open>if submitted\<close>, with the values of the two
  number inputs; \<open>amount <= 0\<close> is Python's test on the float. Indexing a text with \<open>'balance'\<close> would raise a \<open>TypeError\<close>, which ends
  the call without a result (\<open>None\<close>); \<open>get_balance\<close> never pairs \<open>True\<close> with a text.
\<close>

definition transaction_ui ::
  "string \<Rightarrow> int \<Rightarrow> 'a \<Rightarrow> ('a, 'm) process \<Rightarrow> unit option \<times> ('a, 'm) process" where
  "transaction_ui operation acc_id amount p =
     (if py_nonpositive (arith p) amount
      then (Some (), emit (St_warning Amount_must_be_positive) p)
      else if acc_id < 1 then (Some (), emit (St_warning Enter_valid_account_id) p)
      else
        (case update_balance acc_id amount (upper operation) p of
           (None, p1) \<Rightarrow> (None, p1)
         | (Some (success, message), p1) \<Rightarrow>
             if success then
               (let p2 = emit (St_success message) p1
                in case get_balance acc_id p2 of
                     (None, p3) \<Rightarrow> (None, p3)
                   | (Some (balance_success, balance_data), p3) \<Rightarrow>
                       if balance_success then
                         (case balance_data of
                            Dict name balance \<Rightarrow>
                              (Some (), emit (St_write (Updated_balance acc_id balance)) p3)
                          | Text t \<Rightarrow> (None, p3))
                       else (Some (), p3))
             else (Some (), emit (St_error message) p1)))"

section \<open>Reading the tables\<close>

text \<open>
  The balance the store holds for an account id: that of the first row with this id
  (\<open>id\<close> is the primary key, so of the only one), as \<open>SELECT ... WHERE id = %s\<close>
  followed by \<open>fetchone()\<close> reads it.
\<close>

definition balance_of :: "('a, 'm) process \<Rightarrow> int \<Rightarrow> 'm option" where
  "balance_of p acc_id = map_option a_balance (find (\<lambda>r. a_id r = acc_id) (accounts p))"

text \<open>
  A ledger for the worked examples, on the two-decimal column (balances in hundredths):
  one account with id 1 and a balance of 100.00, a store that raises nothing, no
  connection opened yet.
\<close>

definition demo_ledger :: "(pyfloat, int) process" where
  "demo_ledger =
     \<lparr>arith = decimal2, users = [],
      accounts = [\<lparr>a_id = 1, a_name = ''Asha'', a_email = ''asha@x.com'', a_balance = 10000\<rparr>],
      next_user_id = 1, next_account_id = 2, faults = [], issued = [], server = [],
      connect_calls = 0, cache = None, events = []\<rparr>"


text \<open>
  The hash the store holds for an email: that of the first row of \<open>users\<close> with this
  email (\<open>email\<close> is a unique key, so of the only one), as
  \<open>SELECT password_hash FROM users WHERE email = %s\<close> followed by \<open>fetchone()\<close> reads
  it. Equality of strings stands for the equality the store's collation decides.
\<close>

definition stored_hash :: "('a, 'm) process \<Rightarrow> string \<Rightarrow> string option" where
  "stored_hash p email =
     map_option u_password_hash (find (\<lambda>r. u_email r = email) (users p))"

section \<open>Runs of the application\<close>

text \<open>
  One step of the process is one call of any of the operations, with any arguments;
  \<open>step\<^sup>*\<^sup>*\<close> relates a state to every state a sequence of calls can lead to.
\<close>

inductive step :: "('a, 'm) process \<Rightarrow> ('a, 'm) process \<Rightarrow> bool" where
  register: "step p (snd (register_user hashpw salt email password p))"
| authenticate: "step p (snd (authenticate_user checkpw email password p))"
| create: "step p (snd (create_account_db name email balance p))"
| list_accounts: "step p (snd (get_all_accounts p))"
| update: "step p (snd (update_balance acc_id amount operation p))"
| balance: "step p (snd (get_balance acc_id p))"
| view: "step p (snd (view_accounts_ui p))"
| transact: "step p (snd (transaction_ui operation acc_id amount p))"

text \<open>
  A stand-in for the hashing primitive in the worked examples: the hash is the four
  character salt followed by the password, and checking strips the salt.
\<close>

definition demo_hashpw :: "string \<Rightarrow> string \<Rightarrow> string" where
  "demo_hashpw password salt = salt @ password"

definition demo_checkpw :: "string \<Rightarrow> string \<Rightarrow> bool" where
  "demo_checkpw password hashed = (drop 4 hashed = password)"

definition demo_registered :: "(pyfloat, int) process" where
  "demo_registered = snd (register_user demo_hashpw ''salt'' ''a@x.com'' ''secret1'' demo_ledger)"

text \<open>
  Two more states for the worked examples: a ledger without accounts, and the same ledger
  on a store whose next \<open>db.cursor()\<close> works and whose next statement raises.
\<close>

definition empty_ledger :: "(pyfloat, int) process" where
  "empty_ledger = demo_ledger\<lparr>accounts := [], next_account_id := 1\<rparr>"

definition lost_connection :: db_error where
  "lost_connection = Error ''2013 (HY000): Lost connection to MySQL server during query''"

definition failing_ledger :: "(pyfloat, int) process" where
  "failing_ledger = empty_ledger\<lparr>faults := [None, Some lost_connection]\<rparr>"

text \<open>Whether a returned \<open>(success, message)\<close> pair reports success.\<close>

definition succeeded :: "(bool \<times> 'a) option \<Rightarrow> bool" where
  "succeeded r = (case r of Some (ok, _) \<Rightarrow> ok | None \<Rightarrow> False)"

text \<open>
  Two servers for the worked examples: one that refuses four connection attempts and then
  hands out a connection object that is not connected, and one that hands out such an
  object at every attempt.
\<close>

definition refused :: db_error where
  "refused = Error ''2003 (HY000): connection refused''"

definition stale_server :: "(pyfloat, int) process" where
  "stale_server =
     demo_ledger\<lparr>server := [Raises refused, Raises refused, Raises refused, Raises refused,
                              Opens False]\<rparr>"

definition unconnected_server :: "(pyfloat, int) process" where
  "unconnected_server =
     demo_ledger\<lparr>server := [Opens False, Opens False, Opens False, Opens False, Opens False]\<rparr>"

section \<open>Auxiliary facts\<close>

lemma range_MAX_RETRIES: "[0..<MAX_RETRIES] = [0, 1, 2, 3, 4]"
  by (simp add: MAX_RETRIES_def upt_rec)

lemma cursor_quiet: "faults p = [] \<Longrightarrow> cursor p = (None, p)"
  by (simp add: cursor_def)

lemma issue_quiet: "faults p = [] \<Longrightarrow> issue q p = (None, p\<lparr>issued := issued p @ [q]\<rparr>)"
  by (simp add: issue_def)

lemma connect_cached: "cache p = Some db \<Longrightarrow> connect p = (Some db, p)"
  by (simp add: connect_def)

lemma connect_fresh:
  "cache p = None \<Longrightarrow> server p = [] \<Longrightarrow>
   connect p = (Some (connect_calls p),
                p\<lparr>server := [], connect_calls := Suc (connect_calls p), cache := Some (connect_calls p)\<rparr>)"
  by (simp add: connect_def range_MAX_RETRIES mysql_connect_def Let_def)

lemma connect_healthy:
  assumes "server p = []"
  obtains db p0 where "connect p = (Some db, p0)" "users p0 = users p" "accounts p0 = accounts p"
    "next_user_id p0 = next_user_id p" "next_account_id p0 = next_account_id p"
    "faults p0 = faults p" "issued p0 = issued p" "server p0 = []" "events p0 = events p"
    "cache p0 = Some db" "arith p0 = arith p"
proof (cases "cache p")
  case None
  show ?thesis
    by (rule that[OF connect_fresh[OF None assms]]) (simp_all)
next
  case (Some db)
  show ?thesis
    by (rule that[OF connect_cached[OF Some]]) (simp_all add: assms Some)
qed

lemma fetchone_select: "fetchone (map f (filter P xs)) = map_option f (find P xs)"
  by (induction xs) (auto simp: fetchone_def)

lemma a_id_apply_update [simp]: "a_id (apply_update ar q r) = a_id r"
  by (cases q) auto

lemma find_apply_update:
  "find (\<lambda>r. a_id r = i) (map (apply_update ar q) xs) =
   map_option (apply_update ar q) (find (\<lambda>r. a_id r = i) xs)"
  by (induction xs) auto

lemma apply_update_other:
  assumes "q = UPDATE_balance_minus x i \<or> q = UPDATE_balance_plus x i" and "a_id y \<noteq> i"
  shows "apply_update ar q y = y"
  using assms by auto

lemma apply_update_same:
  "apply_update ar q r = r \<longleftrightarrow> a_balance (apply_update ar q r) = a_balance r"
proof
  assume "apply_update ar q r = r"
  then show "a_balance (apply_update ar q r) = a_balance r" by simp
next
  assume "a_balance (apply_update ar q r) = a_balance r"
  then show "apply_update ar q r = r" by (cases q) (auto split: if_splits)
qed

text \<open>
  With \<open>id\<close> a key, an update of account \<open>i\<close> changes a row exactly when it changes the
  balance of the one row that has this id.
\<close>

lemma changed_rows:
  assumes "distinct (map a_id xs)"
      and "find (\<lambda>r. a_id r = i) xs = Some r"
      and "q = UPDATE_balance_minus x i \<or> q = UPDATE_balance_plus x i"
  shows "filter (\<lambda>y. apply_update ar q y \<noteq> y) xs = [] \<longleftrightarrow>
         a_balance (apply_update ar q r) = a_balance r"
proof -
  from assms(2) have m: "r \<in> set xs" and idr: "a_id r = i"
    by (auto simp: find_Some_iff)
  have only: "y = r" if "y \<in> set xs" "a_id y = i" for y
    using that m idr assms(1) by (auto simp: distinct_map dest: inj_onD)
  have "(\<forall>y\<in>set xs. apply_update ar q y = y) \<longleftrightarrow> apply_update ar q r = r"
  proof
    assume "\<forall>y\<in>set xs. apply_update ar q y = y"
    with m show "apply_update ar q r = r" by blast
  next
    assume a: "apply_update ar q r = r"
    show "\<forall>y\<in>set xs. apply_update ar q y = y"
    proof
      fix y assume y: "y \<in> set xs"
      show "apply_update ar q y = y"
      proof (cases "a_id y = i")
        case True
        with only[OF y] a show ?thesis by simp
      next
        case False
        with assms(3) show ?thesis by (rule apply_update_other)
      qed
    qed
  qed
  then show ?thesis
    by (simp add: filter_empty_conv apply_update_same)
qed

lemma unchanged_rows:
  "filter (\<lambda>y. apply_update ar q y \<noteq> y) xs = [] \<Longrightarrow> map (apply_update ar q) xs = xs"
  by (simp add: filter_empty_conv map_idI)

lemma withdraw_try:
  assumes "faults p = []" and "find (\<lambda>r. a_id r = i) (accounts p) = Some r"
      and "distinct (map a_id (accounts p))"
  shows "fst (update_balance_try i x ''WITHDRAW'' p) =
           Inr (if py_less (arith p) (a_balance r) x
                then (False, Insufficient_balance (a_balance r))
                else if sql_minus (arith p) (a_balance r) x = a_balance r
                then (False, Not_found_or_no_change)
                else (True, Successful ''WITHDRAWAL''))"
    and "accounts (snd (update_balance_try i x ''WITHDRAW'' p)) =
           (if py_less (arith p) (a_balance r) x then accounts p
            else map (apply_update (arith p) (UPDATE_balance_minus x i)) (accounts p))"
proof -
  from assms(2) have idr: "a_id r = i" by (auto simp: find_Some_iff)
  from changed_rows[OF assms(3,2), of "UPDATE_balance_minus x i" x "arith p"] idr
  have ch: "filter (\<lambda>y. apply_update (arith p) (UPDATE_balance_minus x i) y \<noteq> y) (accounts p) = []
              \<longleftrightarrow> sql_minus (arith p) (a_balance r) x = a_balance r"
    by simp
  show "fst (update_balance_try i x ''WITHDRAW'' p) =
           Inr (if py_less (arith p) (a_balance r) x
                then (False, Insufficient_balance (a_balance r))
                else if sql_minus (arith p) (a_balance r) x = a_balance r
                then (False, Not_found_or_no_change)
                else (True, Successful ''WITHDRAWAL''))"
    using assms(1,2) ch
    by (simp add: update_balance_try_def cursor_quiet execute_SELECT_balance_def issue_quiet
        fetchone_select update_balance_execute_def execute_update_def commit_def
        connect_clear_def Let_def del: apply_update.simps)
  show "accounts (snd (update_balance_try i x ''WITHDRAW'' p)) =
           (if py_less (arith p) (a_balance r) x then accounts p
            else map (apply_update (arith p) (UPDATE_balance_minus x i)) (accounts p))"
    using assms(1,2)
    by (simp add: update_balance_try_def cursor_quiet execute_SELECT_balance_def issue_quiet
        fetchone_select update_balance_execute_def execute_update_def commit_def
        connect_clear_def Let_def del: apply_update.simps)
qed

lemma update_balance_connected:
  assumes "connect p = (Some db, p0)"
  shows "fst (update_balance i x operation p) =
           Some (case fst (update_balance_try i x operation p0) of
                   Inr r \<Rightarrow> r | Inl err \<Rightarrow> (False, Transaction_error err))"
    and "snd (update_balance i x operation p) = snd (update_balance_try i x operation p0)"
  using assms by (auto simp: update_balance_def split: prod.splits sum.splits)

lemma withdraw_healthy:
  assumes "healthy p" and "distinct (map a_id (accounts p))" and "balance_of p acc_id = Some b"
  shows "fst (update_balance acc_id amount ''WITHDRAW'' p) =
           Some (if py_less (arith p) b amount then (False, Insufficient_balance b)
                 else if sql_minus (arith p) b amount = b then (False, Not_found_or_no_change)
                 else (True, Successful ''WITHDRAWAL''))"
    and "balance_of (snd (update_balance acc_id amount ''WITHDRAW'' p)) acc_id =
           Some (if py_less (arith p) b amount then b else sql_minus (arith p) b amount)"
    and "py_less (arith p) b amount \<or> sql_minus (arith p) b amount = b \<Longrightarrow>
           accounts (snd (update_balance acc_id amount ''WITHDRAW'' p)) = accounts p"
proof -
  from assms(1) have srv: "server p = []" and flt: "faults p = []"
    by (simp_all add: healthy_def)
  from srv obtain db p0 where c: "connect p = (Some db, p0)"
    and acc: "accounts p0 = accounts p" and f0: "faults p0 = faults p"
    and ar: "arith p0 = arith p"
    by (rule connect_healthy)
  from assms(3) obtain r where r: "find (\<lambda>r. a_id r = acc_id) (accounts p0) = Some r"
    and b: "a_balance r = b"
    by (auto simp: balance_of_def acc)
  have f0': "faults p0 = []" using f0 flt by simp
  have d0: "distinct (map a_id (accounts p0))" using assms(2) acc by simp
  note w = withdraw_try[OF f0' r d0, of amount, unfolded ar b acc]
  note u = update_balance_connected[OF c, of acc_id amount "''WITHDRAW''"]
  have idr: "a_id r = acc_id" using r by (auto simp: find_Some_iff)
  have r': "find (\<lambda>r. a_id r = acc_id) (accounts p) = Some r" using r acc by simp
  show "fst (update_balance acc_id amount ''WITHDRAW'' p) =
           Some (if py_less (arith p) b amount then (False, Insufficient_balance b)
                 else if sql_minus (arith p) b amount = b then (False, Not_found_or_no_change)
                 else (True, Successful ''WITHDRAWAL''))"
    using w(1) u(1) by simp
  show "balance_of (snd (update_balance acc_id amount ''WITHDRAW'' p)) acc_id =
           Some (if py_less (arith p) b amount then b else sql_minus (arith p) b amount)"
    using w(2) u(2) r' b idr by (simp add: balance_of_def find_apply_update)
  assume same: "py_less (arith p) b amount \<or> sql_minus (arith p) b amount = b"
  show "accounts (snd (update_balance acc_id amount ''WITHDRAW'' p)) = accounts p"
  proof (cases "py_less (arith p) b amount")
    case True
    with w(2) u(2) show ?thesis by simp
  next
    case False
    with same have eq: "sql_minus (arith p) b amount = b" by simp
    from changed_rows[OF assms(2) r', of "UPDATE_balance_minus amount acc_id" amount "arith p"]
      idr b eq
    have "filter (\<lambda>y. apply_update (arith p) (UPDATE_balance_minus amount acc_id) y \<noteq> y)
            (accounts p) = []"
      by simp
    from unchanged_rows[OF this] False w(2) u(2) show ?thesis by simp
  qed
qed

section \<open>The two-decimal column\<close>

lemma decimal2_sel:
  "py_less decimal2 b x \<longleftrightarrow> of_int b / 100 < exact_value x"
  "py_nonpositive decimal2 x \<longleftrightarrow> exact_value x \<le> 0"
  "sql_minus decimal2 b x = to_column (of_int b / 100 - repr_value x)"
  "sql_plus decimal2 b x = to_column (of_int b / 100 + repr_value x)"
  "sql_value decimal2 x = to_column (repr_value x)"
  by (simp_all add: decimal2_def)

lemma dyadic_sel [simp]: "exact_value (dyadic v) = v" "repr_value (dyadic v) = v"
  by (simp_all add: dyadic_def)

lemma to_column_hundredths: "to_column (of_int n / 100) = n"
proof (cases "0 \<le> n")
  case True
  have "\<lfloor>(of_int n :: rat) + 1 / 2\<rfloor> = n" by linarith
  with True show ?thesis by (simp add: to_column_def)
next
  case False
  have "\<lfloor>- (of_int n :: rat) + 1 / 2\<rfloor> = - n" by linarith
  with False show ?thesis by (simp add: to_column_def)
qed

lemma to_column_error: "\<bar>of_int (to_column v) - v * 100\<bar> \<le> 1 / 2"
proof (cases "0 \<le> v")
  case True
  then have "to_column v = \<lfloor>v * 100 + 1 / 2\<rfloor>" by (simp add: to_column_def)
  then show ?thesis by linarith
next
  case False
  then have "to_column v = - \<lfloor>- v * 100 + 1 / 2\<rfloor>" by (simp add: to_column_def)
  then show ?thesis by linarith
qed

text \<open>On an amount that is a whole number of hundredths the column computes exactly.\<close>

lemma decimal2_whole:
  assumes "repr_value x = of_int k / 100"
  shows "sql_plus decimal2 b x = b + k" and "sql_minus decimal2 b x = b - k"
proof -
  have "of_int b / 100 + repr_value x = (of_int (b + k) :: rat) / 100"
    by (simp add: assms add_divide_distrib)
  then show "sql_plus decimal2 b x = b + k"
    by (simp only: decimal2_sel to_column_hundredths)
  have "of_int b / 100 - repr_value x = (of_int (b - k) :: rat) / 100"
    by (simp add: assms diff_divide_distrib)
  then show "sql_minus decimal2 b x = b - k"
    by (simp only: decimal2_sel to_column_hundredths)
qed


text \<open>On any amount, adding and then subtracting it ends at most one hundredth away.\<close>

lemma decimal2_undo_within:
  "\<bar>sql_minus decimal2 (sql_plus decimal2 b x) x - b\<bar> \<le> 1"
proof -
  define b1 where "b1 = to_column (of_int b / 100 + repr_value x)"
  define b2 where "b2 = to_column (of_int b1 / 100 - repr_value x)"
  from to_column_error[of "of_int b / 100 + repr_value x"]
  have e1: "\<bar>(of_int b1 :: rat) - (of_int b + repr_value x * 100)\<bar> \<le> 1 / 2"
    by (simp add: b1_def algebra_simps)
  from to_column_error[of "of_int b1 / 100 - repr_value x"]
  have e2: "\<bar>(of_int b2 :: rat) - (of_int b1 - repr_value x * 100)\<bar> \<le> 1 / 2"
    by (simp add: b2_def algebra_simps)
  from e1 e2 have "\<bar>(of_int b2 :: rat) - of_int b\<bar> \<le> 1" by linarith
  then have "\<bar>(of_int (b2 - b) :: rat)\<bar> \<le> of_int 1" by simp
  then have "\<bar>b2 - b\<bar> \<le> 1"
    by (simp only: of_int_abs[symmetric] of_int_le_iff)
  then show ?thesis
    by (simp add: decimal2_sel b1_def b2_def)
qed

lemma exact_sel [simp]:
  "py_less exact_arithmetic b x \<longleftrightarrow> b < x"
  "py_nonpositive exact_arithmetic x \<longleftrightarrow> x \<le> 0"
  "sql_minus exact_arithmetic b x = b - x"
  "sql_plus exact_arithmetic b x = b + x"
  "sql_value exact_arithmetic x = x"
  by (simp_all add: exact_arithmetic_def)

text \<open>The values the worked examples need.\<close>

lemma demo_values:
  "sql_minus decimal2 10000 (dyadic 50) = 5000"
  "sql_plus decimal2 10000 (dyadic 25) = 12500"
  "sql_minus decimal2 12500 (dyadic 25) = 10000"
  "sql_minus decimal2 10000 (dyadic (1 / 512)) = 10000"
  "sql_plus decimal2 10000 (dyadic (1 / 8)) = 10013"
  "sql_minus decimal2 10013 (dyadic (1 / 8)) = 10001"
  "sql_minus decimal2 10000 (dyadic (1 / 64)) = 9998"
  by (simp_all only: decimal2_sel dyadic_sel) code_simp+

lemma demo_comparisons:
  "\<not> py_less decimal2 10000 (dyadic 50)"
  "\<not> py_less decimal2 10000 (dyadic (1 / 512))"
  "\<not> py_less decimal2 12500 (dyadic 25)"
  "\<not> py_less decimal2 10013 (dyadic (1 / 8))"
  "\<not> py_less decimal2 10000 (dyadic (1 / 64))"
  "py_less decimal2 10 float_tenth"
  "\<not> py_nonpositive decimal2 (dyadic 25)"
  by (simp_all add: decimal2_sel float_tenth_def)

lemma demo_ledger_sel:
  "arith demo_ledger = decimal2" "healthy demo_ledger"
  "distinct (map a_id (accounts demo_ledger))" "balance_of demo_ledger 1 = Some 10000"
  "cache demo_ledger = None" "server demo_ledger = []" "faults demo_ledger = []"
  "events demo_ledger = []" "issued demo_ledger = []" "connect_calls demo_ledger = 0"
  by (simp_all add: demo_ledger_def healthy_def balance_of_def)


section \<open>Withdrawals\<close>




text \<open>
  With exact arithmetic on one type the three outcomes are the two of the claim: for an
  amount above zero the withdrawal succeeds exactly when \<open>amount \<le> b\<close>, and the new
  balance \<open>b - amount\<close> is not negative.
\<close>

lemma withdraw_exact:
  fixes amount :: "'m::linordered_ab_group_add"
  assumes "healthy p" and "distinct (map a_id (accounts p))" and "balance_of p acc_id = Some b"
      and "arith p = exact_arithmetic" and "0 < amount"
  shows "fst (update_balance acc_id amount ''WITHDRAW'' p) =
           (if amount \<le> b then Some (True, Successful ''WITHDRAWAL'')
            else Some (False, Insufficient_balance b)) \<and>
         balance_of (snd (update_balance acc_id amount ''WITHDRAW'' p)) acc_id =
           (if amount \<le> b then Some (b - amount) else Some b) \<and>
         (if amount \<le> b then 0 \<le> b - amount
          else accounts (snd (update_balance acc_id amount ''WITHDRAW'' p)) = accounts p)"
proof -
  note w = withdraw_healthy[OF assms(1,2,3), of amount, unfolded assms(4) exact_sel]
  from assms(5) have ne: "b - amount \<noteq> b" by simp
  show ?thesis
  proof (cases "amount \<le> b")
    case True
    then have "\<not> b < amount" by simp
    with w(1,2) ne True show ?thesis by simp
  next
    case False
    then have "b < amount" by simp
    with w False show ?thesis by simp
  qed
qed

text \<open>
  On the two-decimal column the same holds for an amount that is a whole number of
  hundredths and whose binary value does not exceed the balance.
\<close>

lemma withdraw_decimal2_whole:
  assumes "healthy p" and "distinct (map a_id (accounts p))" and "balance_of p acc_id = Some b"
      and "arith p = decimal2" and "repr_value amount = of_int k / 100" and "0 < k"
      and "exact_value amount \<le> of_int b / 100"
  shows "fst (update_balance acc_id amount ''WITHDRAW'' p) = Some (True, Successful ''WITHDRAWAL'')"
    and "balance_of (snd (update_balance acc_id amount ''WITHDRAW'' p)) acc_id = Some (b - k)"
proof -
  note w = withdraw_healthy[OF assms(1,2,3), of amount, unfolded assms(4)]
  from assms(7) have nl: "\<not> py_less decimal2 b amount" by (simp add: decimal2_sel)
  from assms(6) have ne: "sql_minus decimal2 b amount \<noteq> b"
    by (simp add: decimal2_whole[OF assms(5)])
  from w(1) nl ne
  show "fst (update_balance acc_id amount ''WITHDRAW'' p) = Some (True, Successful ''WITHDRAWAL'')"
    by simp
  from w(2) nl
  show "balance_of (snd (update_balance acc_id amount ''WITHDRAW'' p)) acc_id = Some (b - k)"
    by (simp add: decimal2_whole[OF assms(5)])
qed

section \<open>What the operations leave alone\<close>

lemma mysql_connect_frame:
  "mysql_connect p = (r, p') \<Longrightarrow>
   users p' = users p \<and> accounts p' = accounts p \<and> faults p' = faults p \<and>
   issued p' = issued p \<and> cache p' = cache p \<and> next_user_id p' = next_user_id p \<and>
   next_account_id p' = next_account_id p \<and> arith p' = arith p"
  by (auto simp: mysql_connect_def Let_def split: list.splits attempt_outcome.splits)

lemma connect_attempts_frame:
  "connect_attempts as p = (r, p') \<Longrightarrow>
   users p' = users p \<and> accounts p' = accounts p \<and> faults p' = faults p \<and>
   issued p' = issued p \<and> cache p' = cache p \<and> next_user_id p' = next_user_id p \<and>
   next_account_id p' = next_account_id p \<and> arith p' = arith p"
proof (induction as arbitrary: p)
  case Nil
  then show ?case by simp
next
  case (Cons a as)
  obtain o1 p1 where m: "mysql_connect p = (o1, p1)" by (cases "mysql_connect p")
  note f = mysql_connect_frame[OF m]
  show ?case
  proof (cases o1)
    case (Inl err)
    with Cons.prems m f Cons.IH[of "emit (Sleep RETRY_DELAY) (emit (Print (Attempt_failed (a + 1) MAX_RETRIES err)) p1)"]
    show ?thesis
      by (auto simp: Let_def emit_def split: if_splits)
  next
    case (Inr hc)
    obtain h c where hc: "hc = (h, c)" by (cases hc)
    with Inr Cons.prems m f Cons.IH[of p1]
    show ?thesis
      by (auto split: if_splits)
  qed
qed

lemma connect_frame:
  "connect p = (r, p') \<Longrightarrow>
   users p' = users p \<and> accounts p' = accounts p \<and> faults p' = faults p \<and>
   issued p' = issued p \<and> next_user_id p' = next_user_id p \<and>
   next_account_id p' = next_account_id p \<and> arith p' = arith p"
  by (auto simp: connect_def split: option.splits prod.splits dest: connect_attempts_frame)

lemma cursor_frame:
  "cursor p = (r, p') \<Longrightarrow>
   users p' = users p \<and> accounts p' = accounts p \<and> cache p' = cache p \<and>
   issued p' = issued p \<and> server p' = server p \<and> connect_calls p' = connect_calls p \<and>
   events p' = events p \<and> arith p' = arith p"
  by (auto simp: cursor_def split: list.splits)

lemma issue_frame:
  "issue q p = (r, p') \<Longrightarrow>
   users p' = users p \<and> accounts p' = accounts p \<and> cache p' = cache p \<and>
   server p' = server p \<and> connect_calls p' = connect_calls p \<and> events p' = events p \<and>
   issued p' = issued p @ [q] \<and> arith p' = arith p"
  by (auto simp: issue_def split: list.splits)

lemma update_balance_execute_success:
  "update_balance_execute sql i x operation p = (Inr (True, m), p') \<Longrightarrow>
   accounts p' = map (apply_update (arith p) (sql x i)) (accounts p) \<and> cache p' = None \<and>
   arith p' = arith p"
  by (auto simp: update_balance_execute_def execute_update_def commit_def connect_clear_def
      Let_def split: prod.splits sum.splits option.splits if_splits dest!: issue_frame)

lemma update_balance_try_success:
  "update_balance_try i x operation p = (Inr (True, m), p') \<Longrightarrow>
   cache p' = None \<and> arith p' = arith p \<and>
   (if operation = ''WITHDRAW''
    then accounts p' = map (apply_update (arith p) (UPDATE_balance_minus x i)) (accounts p)
    else operation = ''DEPOSIT'' \<and>
         accounts p' = map (apply_update (arith p) (UPDATE_balance_plus x i)) (accounts p))"
  by (auto simp: update_balance_try_def execute_SELECT_balance_def
      split: prod.splits sum.splits option.splits if_splits
      dest!: issue_frame cursor_frame update_balance_execute_success)

lemma update_balance_success:
  assumes "update_balance i x operation p = (Some (True, m), p')"
  shows "cache p' = None \<and> arith p' = arith p \<and>
   (if operation = ''WITHDRAW''
    then accounts p' = map (apply_update (arith p) (UPDATE_balance_minus x i)) (accounts p)
    else operation = ''DEPOSIT'' \<and>
         accounts p' = map (apply_update (arith p) (UPDATE_balance_plus x i)) (accounts p))"
proof -
  from assms obtain db p0 where c: "connect p = (Some db, p0)"
    and t: "update_balance_try i x operation p0 = (Inr (True, m), p')"
    by (auto simp: update_balance_def split: prod.splits sum.splits option.splits)
  from connect_frame[OF c] update_balance_try_success[OF t] show ?thesis
    by auto
qed

lemma update_balance_execute_quiet:
  assumes "faults p = []"
  shows "faults (snd (update_balance_execute sql i x operation p)) = [] \<and>
         server (snd (update_balance_execute sql i x operation p)) = server p \<and>
         events (snd (update_balance_execute sql i x operation p)) = events p \<and>
         arith (snd (update_balance_execute sql i x operation p)) = arith p \<and>
         map a_id (accounts (snd (update_balance_execute sql i x operation p))) =
           map a_id (accounts p)"
  using assms
  by (simp add: update_balance_execute_def execute_update_def issue_quiet commit_def
      connect_clear_def Let_def comp_def)

lemma update_balance_try_quiet:
  assumes "faults p = []"
  shows "faults (snd (update_balance_try i x operation p)) = [] \<and>
         server (snd (update_balance_try i x operation p)) = server p \<and>
         events (snd (update_balance_try i x operation p)) = events p \<and>
         arith (snd (update_balance_try i x operation p)) = arith p \<and>
         map a_id (accounts (snd (update_balance_try i x operation p))) =
           map a_id (accounts p)"
  using assms
  by (simp add: update_balance_try_def cursor_quiet execute_SELECT_balance_def issue_quiet
      update_balance_execute_quiet split: option.splits)

lemma healthy_update_balance:
  assumes "healthy p"
  shows "healthy (snd (update_balance i x operation p)) \<and>
         events (snd (update_balance i x operation p)) = events p \<and>
         arith (snd (update_balance i x operation p)) = arith p \<and>
         map a_id (accounts (snd (update_balance i x operation p))) = map a_id (accounts p)"
proof -
  from assms have srv: "server p = []" and flt: "faults p = []"
    by (simp_all add: healthy_def)
  from srv obtain db p0 where c: "connect p = (Some db, p0)"
    and f0: "faults p0 = faults p" and s0: "server p0 = []" and e0: "events p0 = events p"
    and a0: "arith p0 = arith p" and acc: "accounts p0 = accounts p"
    by (rule connect_healthy)
  from f0 flt have q: "faults p0 = []" by simp
  from update_balance_try_quiet[OF q, of i x operation] s0 e0 a0 acc
  show ?thesis
    by (simp add: update_balance_connected(2)[OF c] healthy_def)
qed

lemma changed_row_has_id:
  assumes "q = UPDATE_balance_minus x i \<or> q = UPDATE_balance_plus x i"
      and "apply_update ar q r \<noteq> r"
  shows "a_id r = i"
  using assms by (auto split: if_splits)

lemma update_balance_execute_changed:
  "update_balance_execute sql i x operation p = (Inr (True, m), p') \<Longrightarrow>
   \<exists>r\<in>set (accounts p). apply_update (arith p) (sql x i) r \<noteq> r"
  by (auto simp: update_balance_execute_def execute_update_def commit_def connect_clear_def
      Let_def filter_empty_conv split: prod.splits sum.splits option.splits if_splits
      dest!: issue_frame)

lemma update_balance_try_changed:
  "update_balance_try i x operation p = (Inr (True, m), p') \<Longrightarrow>
   \<exists>r\<in>set (accounts p). a_id r = i"
  by (auto simp: update_balance_try_def execute_SELECT_balance_def
      split: prod.splits sum.splits option.splits if_splits
      dest!: issue_frame cursor_frame update_balance_execute_changed)

lemma update_balance_account_exists:
  assumes "update_balance i x operation p = (Some (True, m), p')"
  shows "\<exists>r. find (\<lambda>r. a_id r = i) (accounts p) = Some r"
proof -
  from assms obtain db p0 where c: "connect p = (Some db, p0)"
    and t: "update_balance_try i x operation p0 = (Inr (True, m), p')"
    by (auto simp: update_balance_def split: prod.splits sum.splits option.splits)
  from update_balance_try_changed[OF t] connect_frame[OF c]
  have "\<exists>r\<in>set (accounts p). a_id r = i" by simp
  then show ?thesis
    by (cases "find (\<lambda>r. a_id r = i) (accounts p)") (auto simp: find_None_iff)
qed

section \<open>Deposits\<close>

lemma deposit_try:
  assumes "faults p = []" and "find (\<lambda>r. a_id r = i) (accounts p) = Some r"
      and "distinct (map a_id (accounts p))"
  shows "fst (update_balance_try i x ''DEPOSIT'' p) =
           Inr (if sql_plus (arith p) (a_balance r) x = a_balance r
                then (False, Not_found_or_no_change)
                else (True, Successful ''DEPOSITED''))"
    and "accounts (snd (update_balance_try i x ''DEPOSIT'' p)) =
           map (apply_update (arith p) (UPDATE_balance_plus x i)) (accounts p)"
proof -
  from assms(2) have idr: "a_id r = i" by (auto simp: find_Some_iff)
  from changed_rows[OF assms(3,2), of "UPDATE_balance_plus x i" x "arith p"] idr
  have ch: "filter (\<lambda>y. apply_update (arith p) (UPDATE_balance_plus x i) y \<noteq> y) (accounts p) = []
              \<longleftrightarrow> sql_plus (arith p) (a_balance r) x = a_balance r"
    by simp
  show "fst (update_balance_try i x ''DEPOSIT'' p) =
           Inr (if sql_plus (arith p) (a_balance r) x = a_balance r
                then (False, Not_found_or_no_change)
                else (True, Successful ''DEPOSITED''))"
    using assms(1) ch
    by (simp add: update_balance_try_def cursor_quiet update_balance_execute_def
        execute_update_def issue_quiet commit_def connect_clear_def Let_def
        del: apply_update.simps)
  show "accounts (snd (update_balance_try i x ''DEPOSIT'' p)) =
           map (apply_update (arith p) (UPDATE_balance_plus x i)) (accounts p)"
    using assms(1)
    by (simp add: update_balance_try_def cursor_quiet update_balance_execute_def
        execute_update_def issue_quiet commit_def connect_clear_def Let_def
        del: apply_update.simps)
qed

lemma deposit_healthy:
  assumes "healthy p" and "distinct (map a_id (accounts p))" and "balance_of p acc_id = Some b"
  shows "fst (update_balance acc_id amount ''DEPOSIT'' p) =
           Some (if sql_plus (arith p) b amount = b then (False, Not_found_or_no_change)
                 else (True, Successful ''DEPOSITED''))"
    and "balance_of (snd (update_balance acc_id amount ''DEPOSIT'' p)) acc_id =
           Some (sql_plus (arith p) b amount)"
proof -
  from assms(1) have srv: "server p = []" and flt: "faults p = []"
    by (simp_all add: healthy_def)
  from srv obtain db p0 where c: "connect p = (Some db, p0)"
    and acc: "accounts p0 = accounts p" and f0: "faults p0 = faults p"
    and ar: "arith p0 = arith p"
    by (rule connect_healthy)
  from assms(3) obtain r where r: "find (\<lambda>r. a_id r = acc_id) (accounts p0) = Some r"
    and b: "a_balance r = b"
    by (auto simp: balance_of_def acc)
  have f0': "faults p0 = []" using f0 flt by simp
  have d0: "distinct (map a_id (accounts p0))" using assms(2) acc by simp
  note d = deposit_try[OF f0' r d0, of amount, unfolded ar b acc]
  note u = update_balance_connected[OF c, of acc_id amount "''DEPOSIT''"]
  have idr: "a_id r = acc_id" using r by (auto simp: find_Some_iff)
  have r': "find (\<lambda>r. a_id r = acc_id) (accounts p) = Some r" using r acc by simp
  show "fst (update_balance acc_id amount ''DEPOSIT'' p) =
           Some (if sql_plus (arith p) b amount = b then (False, Not_found_or_no_change)
                 else (True, Successful ''DEPOSITED''))"
    using d(1) u(1) by simp
  show "balance_of (snd (update_balance acc_id amount ''DEPOSIT'' p)) acc_id =
           Some (sql_plus (arith p) b amount)"
    using d(2) u(2) r' b idr by (simp add: balance_of_def find_apply_update)
qed


section \<open>Deposit and withdrawal of the same amount\<close>




text \<open>
  When the subtraction undoes the addition: always with exact arithmetic; on the
  two-decimal column for every amount that is a whole number of hundredths
  (\<open>decimal2_undo_whole\<close>), while for any other amount the balance ends at most one
  hundredth away from where it was (\<open>decimal2_undo_within\<close>).
\<close>

lemma exact_undo:
  "sql_minus exact_arithmetic (sql_plus exact_arithmetic b x) x = b"
  by simp

section \<open>Reading and rejecting\<close>

text \<open>The definitions that evaluate the operations on a concrete state.\<close>

lemmas demo_run =
  demo_ledger_def connect_def range_MAX_RETRIES mysql_connect_def connect_clear_def
  cursor_def issue_def commit_def fetchone_def emit_def Let_def
  execute_SELECT_balance_def execute_SELECT_name_balance_def execute_update_def
  update_balance_def update_balance_try_def update_balance_execute_def
  get_balance_def get_balance_try_def

lemma upper_Deposit: "upper ''Deposit'' = ''DEPOSIT''"
  by code_simp

lemma upper_Withdraw: "upper ''Withdraw'' = ''WITHDRAW''"
  by code_simp

lemma get_balance_try_quiet:
  assumes "faults p = []"
  shows "get_balance_try i p =
     (Inr (case find (\<lambda>r. a_id r = i) (accounts p) of
             None \<Rightarrow> (False, Text ACCOUNT_NOT_FOUND)
           | Some r \<Rightarrow> (True, Dict (a_name r) (a_balance r))),
      p\<lparr>issued := issued p @ [SELECT_name_balance i]\<rparr>)"
  using assms
  by (simp add: get_balance_try_def cursor_quiet execute_SELECT_name_balance_def issue_quiet
      fetchone_select split: option.splits)

lemma get_balance_healthy:
  assumes "healthy p"
  shows "fst (get_balance i p) =
           Some (case find (\<lambda>r. a_id r = i) (accounts p) of
                   None \<Rightarrow> (False, Text ACCOUNT_NOT_FOUND)
                 | Some r \<Rightarrow> (True, Dict (a_name r) (a_balance r)))"
    and "events (snd (get_balance i p)) = events p"
    and "accounts (snd (get_balance i p)) = accounts p"
proof -
  from assms have srv: "server p = []" and flt: "faults p = []"
    by (simp_all add: healthy_def)
  from srv obtain db p0 where c: "connect p = (Some db, p0)"
    and acc: "accounts p0 = accounts p" and f0: "faults p0 = faults p"
    and ev: "events p0 = events p"
    by (rule connect_healthy)
  have q: "faults p0 = []" using f0 flt by simp
  show "fst (get_balance i p) =
           Some (case find (\<lambda>r. a_id r = i) (accounts p) of
                   None \<Rightarrow> (False, Text ACCOUNT_NOT_FOUND)
                 | Some r \<Rightarrow> (True, Dict (a_name r) (a_balance r)))"
    by (simp add: get_balance_def c get_balance_try_quiet[OF q] acc)
  show "events (snd (get_balance i p)) = events p"
    by (simp add: get_balance_def c get_balance_try_quiet[OF q] ev)
  show "accounts (snd (get_balance i p)) = accounts p"
    by (simp add: get_balance_def c get_balance_try_quiet[OF q] acc)
qed

lemma get_balance_try_no_row:
  assumes "find (\<lambda>r. a_id r = i) (accounts p) = None"
      and "get_balance_try i p = (Inr (ok, d), p')"
  shows "\<not> ok \<and> d = Text ACCOUNT_NOT_FOUND"
  using assms
  by (auto simp: get_balance_try_def execute_SELECT_name_balance_def fetchone_select
      split: prod.splits sum.splits option.splits dest!: cursor_frame issue_frame)

lemma get_balance_no_row:
  assumes "find (\<lambda>r. a_id r = i) (accounts p) = None"
  shows "fst (get_balance i p) \<noteq> Some (True, d)"
proof
  assume a: "fst (get_balance i p) = Some (True, d)"
  then obtain db p0 where c: "connect p = (Some db, p0)"
    by (cases "connect p") (auto simp: get_balance_def split: option.splits)
  from connect_frame[OF c] assms have n: "find (\<lambda>r. a_id r = i) (accounts p0) = None"
    by simp
  from a c obtain p' where "get_balance_try i p0 = (Inr (True, d), p')"
    by (cases "get_balance_try i p0") (auto simp: get_balance_def split: sum.splits)
  from get_balance_try_no_row[OF n this] show False by simp
qed

section \<open>Reading a balance\<close>

text \<open>
  C8. \<open>get_balance\<close>. On a healthy store the call returns \<open>(False, "ACCOUNT NOT FOUND")\<close>
  when no row of \<open>accounts\<close> has the id, and \<open>(True, {name, balance})\<close> with the name and
  balance of the row that has it otherwise. Whatever the store does (errors included), a
  call for an id without a row never returns a success and never returns a
  \<open>{name, balance}\<close> dictionary.
\<close>

theorem get_balance_found_or_not:
  "(healthy p \<longrightarrow>
      fst (get_balance acc_id p) =
        (case find (\<lambda>r. a_id r = acc_id) (accounts p) of
           None \<Rightarrow> Some (False, Text ACCOUNT_NOT_FOUND)
         | Some r \<Rightarrow> Some (True, Dict (a_name r) (a_balance r)))) \<and>
   (find (\<lambda>r. a_id r = acc_id) (accounts p) = None \<longrightarrow>
      (\<forall>d. fst (get_balance acc_id p) \<noteq> Some (True, d)) \<and>
      (\<forall>ok name balance. fst (get_balance acc_id p) \<noteq> Some (ok, Dict name balance)))"
proof (intro conjI impI allI)
  assume "healthy p"
  from get_balance_healthy(1)[OF this, of acc_id]
  show "fst (get_balance acc_id p) =
        (case find (\<lambda>r. a_id r = acc_id) (accounts p) of
           None \<Rightarrow> Some (False, Text ACCOUNT_NOT_FOUND)
         | Some r \<Rightarrow> Some (True, Dict (a_name r) (a_balance r)))"
    by (simp split: option.splits)
next
  fix d
  assume "find (\<lambda>r. a_id r = acc_id) (accounts p) = None"
  then show "fst (get_balance acc_id p) \<noteq> Some (True, d)"
    by (rule get_balance_no_row)
next
  fix ok name balance
  assume n: "find (\<lambda>r. a_id r = acc_id) (accounts p) = None"
  show "fst (get_balance acc_id p) \<noteq> Some (ok, Dict name balance)"
  proof
    assume a: "fst (get_balance acc_id p) = Some (ok, Dict name balance)"
    then obtain db p0 where c: "connect p = (Some db, p0)"
      by (cases "connect p") (auto simp: get_balance_def split: option.splits)
    from connect_frame[OF c] n have n0: "find (\<lambda>r. a_id r = acc_id) (accounts p0) = None"
      by simp
    from a c obtain p' where "get_balance_try acc_id p0 = (Inr (ok, Dict name balance), p')"
      by (cases "get_balance_try acc_id p0") (auto simp: get_balance_def split: sum.splits)
    from get_balance_try_no_row[OF n0 this] show False by simp
  qed
qed

theorem get_balance_found_or_not_witness:
  "healthy demo_ledger \<and>
   fst (get_balance 1 demo_ledger) = Some (True, Dict ''Asha'' 10000) \<and>
   find (\<lambda>r. a_id r = 2) (accounts demo_ledger) = None \<and>
   fst (get_balance 2 demo_ledger) = Some (False, Text ACCOUNT_NOT_FOUND) \<and>
   fst (get_balance 2 (demo_ledger\<lparr>faults := [None, Some (Error ''2013: Lost connection'')]\<rparr>))
     \<noteq> Some (True, Dict ''Asha'' 10000)"
proof -
  have h: "healthy demo_ledger"
    by (simp add: healthy_def demo_ledger_def)
  have n: "find (\<lambda>r. a_id r = 2) (accounts demo_ledger) = None"
    by (simp add: demo_ledger_def)
  have n': "find (\<lambda>r. a_id r = 2)
      (accounts (demo_ledger\<lparr>faults := [None, Some (Error ''2013: Lost connection'')]\<rparr>)) = None"
    by (simp add: demo_ledger_def)
  from get_balance_found_or_not[of demo_ledger 1] get_balance_found_or_not[of demo_ledger 2]
    get_balance_found_or_not[of "demo_ledger\<lparr>faults := [None, Some (Error ''2013: Lost connection'')]\<rparr>" 2]
    h n n'
  show ?thesis by (simp add: demo_ledger_def)
qed

lemma update_balance_try_invalid:
  assumes "operation \<noteq> ''DEPOSIT''" "operation \<noteq> ''WITHDRAW''"
  shows "update_balance_try i x operation p =
           (case cursor p of
              (Some err, p1) \<Rightarrow> (Inl err, p1)
            | (None, p1) \<Rightarrow> (Inr (False, Invalid_operation_type), p1))"
  using assms by (simp add: update_balance_try_def split: prod.splits option.splits)

section \<open>Operation kinds other than deposit and withdrawal\<close>

text \<open>
  C9. For an operation string that is neither \<open>"DEPOSIT"\<close> nor \<open>"WITHDRAW"\<close>,
  \<open>update_balance\<close> hands no statement to the store (the list of issued statements is
  as before), leaves both tables as they were and never reports success; on a healthy
  store it returns \<open>(False, "Invalid operation type.")\<close>.
\<close>

theorem invalid_operation_rejected:
  assumes "operation \<noteq> ''DEPOSIT''" and "operation \<noteq> ''WITHDRAW''"
  shows "accounts (snd (update_balance acc_id amount operation p)) = accounts p \<and>
         users (snd (update_balance acc_id amount operation p)) = users p \<and>
         issued (snd (update_balance acc_id amount operation p)) = issued p \<and>
         (\<forall>m. fst (update_balance acc_id amount operation p) \<noteq> Some (True, m)) \<and>
         (healthy p \<longrightarrow>
            fst (update_balance acc_id amount operation p) = Some (False, Invalid_operation_type))"
proof -
  obtain r p0 where c: "connect p = (r, p0)" by (cases "connect p")
  note f = connect_frame[OF c]
  obtain e p1 where cu: "cursor p0 = (e, p1)" by (cases "cursor p0")
  note g = cursor_frame[OF cu]
  have u: "update_balance acc_id amount operation p =
             (case r of None \<Rightarrow> (None, p0)
              | Some db \<Rightarrow>
                  (case e of Some err \<Rightarrow> (Some (False, Transaction_error err), p1)
                   | None \<Rightarrow> (Some (False, Invalid_operation_type), p1)))"
    by (simp add: update_balance_def c update_balance_try_invalid[OF assms] cu
        split: option.splits)
  have frame: "accounts (snd (update_balance acc_id amount operation p)) = accounts p \<and>
         users (snd (update_balance acc_id amount operation p)) = users p \<and>
         issued (snd (update_balance acc_id amount operation p)) = issued p \<and>
         (\<forall>m. fst (update_balance acc_id amount operation p) \<noteq> Some (True, m))"
    using f g by (simp add: u split: option.splits)
  have "fst (update_balance acc_id amount operation p) = Some (False, Invalid_operation_type)"
    if h: "healthy p"
  proof -
    from h have srv: "server p = []" and flt: "faults p = []"
      by (simp_all add: healthy_def)
    from srv obtain db q where c': "connect p = (Some db, q)" and fq: "faults q = faults p"
      by (rule connect_healthy)
    from c c' have r: "r = Some db" and q: "q = p0" by simp_all
    from fq flt q have "faults p0 = []" by simp
    from cursor_quiet[OF this] cu have "e = None" by simp
    with r show ?thesis by (simp add: u)
  qed
  with frame show ?thesis by blast
qed

theorem invalid_operation_rejected_witness:
  "''Deposit'' \<noteq> ''DEPOSIT'' \<and> ''Deposit'' \<noteq> ''WITHDRAW'' \<and> healthy demo_ledger \<and>
   fst (update_balance 1 (dyadic 25) ''Deposit'' demo_ledger) = Some (False, Invalid_operation_type) \<and>
   accounts (snd (update_balance 1 (dyadic 25) ''Deposit'' demo_ledger)) = accounts demo_ledger \<and>
   issued (snd (update_balance 1 (dyadic 25) ''Deposit'' demo_ledger)) = []"
proof -
  have a: "''Deposit'' \<noteq> ''DEPOSIT''" and b: "''Deposit'' \<noteq> ''WITHDRAW''"
    by simp_all
  have h: "healthy demo_ledger"
    by (simp add: healthy_def demo_ledger_def)
  have i: "issued demo_ledger = []"
    by (simp add: demo_ledger_def)
  from invalid_operation_rejected[OF a b, of 1 "dyadic 25" demo_ledger] a b h i
  show ?thesis by simp
qed

section \<open>The deposit and withdrawal screens\<close>

text \<open>
  C4. The user-facing transaction. Let the store be healthy, let Python not find
  \<open>amount <= 0\<close>, let \<open>acc_id \<ge> 1\<close>, and let the call of \<open>update_balance\<close> that
  \<open>transaction_ui\<close> makes succeed. Then \<open>transaction_ui\<close> shows the success message
  and, after it, the line \<open>Updated Balance for Account ID ...\<close> carrying the balance the
  store now holds for the account, which is what the store computed from the old balance
  and \<open>amount\<close>: the difference for a withdrawal, the sum for a deposit.
  (\<open>update_balance\<close> itself returns only the message; the balance comes from the call
  of \<open>get_balance\<close> that follows.)
\<close>

theorem transaction_ui_shows_new_balance:
  assumes "healthy p" and "\<not> py_nonpositive (arith p) amount" and "1 \<le> acc_id"
      and "update_balance acc_id amount (upper operation) p = (Some (True, m), p1)"
  shows "\<exists>old_balance new_balance.
           balance_of p acc_id = Some old_balance \<and>
           balance_of p1 acc_id = Some new_balance \<and>
           new_balance = (if upper operation = ''WITHDRAW''
                          then sql_minus (arith p) old_balance amount
                          else sql_plus (arith p) old_balance amount) \<and>
           fst (transaction_ui operation acc_id amount p) = Some () \<and>
           events (snd (transaction_ui operation acc_id amount p)) =
             events p @ [St_success m, St_write (Updated_balance acc_id new_balance)] \<and>
           accounts (snd (transaction_ui operation acc_id amount p)) = accounts p1"
proof -
  let ?op = "upper operation"
  from update_balance_account_exists[OF assms(4)]
  obtain r where r: "find (\<lambda>r. a_id r = acc_id) (accounts p) = Some r" by blast
  let ?q = "if ?op = ''WITHDRAW'' then UPDATE_balance_minus amount acc_id
            else UPDATE_balance_plus amount acc_id"
  from update_balance_success[OF assms(4)]
  have a1: "accounts p1 = map (apply_update (arith p) ?q) (accounts p)"
    by (simp split: if_splits)
  have r1: "find (\<lambda>r. a_id r = acc_id) (accounts p1) = Some (apply_update (arith p) ?q r)"
    unfolding a1 find_apply_update using r by simp
  have idr: "a_id r = acc_id" using r by (auto simp: find_Some_iff)
  let ?new = "a_balance (apply_update (arith p) ?q r)"
  have new: "?new = (if ?op = ''WITHDRAW'' then sql_minus (arith p) (a_balance r) amount
                     else sql_plus (arith p) (a_balance r) amount)"
    using idr by simp
  from healthy_update_balance[OF assms(1), of acc_id amount ?op] assms(4)
  have h1: "healthy p1" and e1: "events p1 = events p" by simp_all
  let ?p2 = "emit (St_success m) p1"
  have h2: "healthy ?p2" using h1 by (simp add: healthy_def emit_def)
  have acc2: "accounts ?p2 = accounts p1" by (simp add: emit_def)
  obtain g p3 where gb: "get_balance acc_id ?p2 = (g, p3)" by (cases "get_balance acc_id ?p2")
  from get_balance_healthy[OF h2, of acc_id] gb r1 idr
  have g: "g = Some (True, Dict (a_name r) ?new)"
    and e3: "events p3 = events p @ [St_success m]"
    and a3: "accounts p3 = accounts p1"
    by (simp_all add: acc2 emit_def e1 split: if_splits)
  have t: "transaction_ui operation acc_id amount p =
             (Some (), emit (St_write (Updated_balance acc_id ?new)) p3)"
    using assms(2,3) by (simp add: transaction_ui_def assms(4) gb g Let_def not_le)
  show ?thesis
    apply (rule exI[of _ "a_balance r"])
    apply (rule exI[of _ ?new])
    using r r1 new e3 a3
    by (simp add: balance_of_def t emit_def)
qed

theorem transaction_ui_shows_new_balance_witness:
  "healthy demo_ledger \<and> \<not> py_nonpositive (arith demo_ledger) (dyadic 25) \<and> (1::int) \<le> 1 \<and>
   update_balance 1 (dyadic 25) (upper ''Deposit'') demo_ledger =
     (Some (True, Successful ''DEPOSITED''),
      snd (update_balance 1 (dyadic 25) ''DEPOSIT'' demo_ledger)) \<and>
   fst (transaction_ui ''Deposit'' 1 (dyadic 25) demo_ledger) = Some () \<and>
   events (snd (transaction_ui ''Deposit'' 1 (dyadic 25) demo_ledger)) =
     [St_success (Successful ''DEPOSITED''), St_write (Updated_balance 1 12500)]"
proof -
  note dh = deposit_healthy[OF demo_ledger_sel(2,3,4), of "dyadic 25"]
  have h: "healthy demo_ledger" by (rule demo_ledger_sel)
  have n: "\<not> py_nonpositive (arith demo_ledger) (dyadic 25)"
    by (simp add: demo_ledger_sel demo_comparisons)
  have d: "update_balance 1 (dyadic 25) (upper ''Deposit'') demo_ledger =
     (Some (True, Successful ''DEPOSITED''),
      snd (update_balance 1 (dyadic 25) ''DEPOSIT'' demo_ledger))"
    unfolding upper_Deposit using dh(1)
    by (simp add: prod_eq_iff demo_ledger_sel demo_values)
  have b: "balance_of (snd (update_balance 1 (dyadic 25) ''DEPOSIT'' demo_ledger)) 1 = Some 12500"
    using dh(2) by (simp add: demo_ledger_sel demo_values)
  have e: "events demo_ledger = []" by (rule demo_ledger_sel)
  from transaction_ui_shows_new_balance[OF h n _ d] b e h n d
  show ?thesis by auto
qed

lemma find_append_Some: "find P xs = Some r \<Longrightarrow> find P (xs @ ys) = Some r"
  by (induction xs) (auto split: if_splits)

lemma find_append_None: "find P xs = None \<Longrightarrow> find P (xs @ ys) = find P ys"
  by (induction xs) (auto split: if_splits)

lemma sublist_Duplicate_entry: "sublist ''Duplicate entry'' (str (duplicate_entry v k))"
proof -
  have "str (duplicate_entry v k) =
          ''1062 (23000): '' @ ''Duplicate entry'' @
          ('' '' @ [CHR 0x27] @ v @ [CHR 0x27] @ '' for key '' @ [CHR 0x27] @ k @ [CHR 0x27])"
    by (simp add: duplicate_entry_def)
  then show ?thesis
    unfolding sublist_def by blast
qed

lemma sublist_email: "sublist ''email'' (str (duplicate_entry v ''users.email''))"
proof -
  have "str (duplicate_entry v ''users.email'') =
          (''1062 (23000): Duplicate entry '' @ [CHR 0x27] @ v @ [CHR 0x27] @ '' for key '' @
             [CHR 0x27] @ ''users.'') @ ''email'' @ [CHR 0x27]"
    by (simp add: duplicate_entry_def)
  then show ?thesis
    unfolding sublist_def by blast
qed

lemma execute_INSERT_users_cases:
  assumes "execute_INSERT_users email hash p = (e, p')"
  shows "cache p' = cache p \<and>
         (if e = None
          then email \<notin> set (map u_email (users p)) \<and>
               users p' = users p @ [\<lparr>u_id = next_user_id p, u_email = email, u_password_hash = hash\<rparr>]
          else users p' = users p)"
  using assms
  by (auto simp: execute_INSERT_users_def issue_def split: prod.splits option.splits list.splits if_splits)

lemma register_user_try_users:
  assumes "register_user_try hashpw salt email password p = (r, p')"
  shows "cache p' = cache p \<and>
         (users p' = users p \<or>
          email \<notin> set (map u_email (users p)) \<and>
          (\<exists>i. users p' = users p @
             [\<lparr>u_id = i, u_email = email, u_password_hash = hashpw password salt\<rparr>]))"
  using assms
  by (auto simp: register_user_try_def commit_def Let_def
      split: prod.splits option.splits
      dest!: cursor_frame issue_frame execute_INSERT_users_cases)

lemma register_user_try_success:
  assumes "register_user_try hashpw salt email password p = (Inr (True, m), p')"
  shows "email \<notin> set (map u_email (users p)) \<and>
         (\<exists>i. users p' = users p @
             [\<lparr>u_id = i, u_email = email, u_password_hash = hashpw password salt\<rparr>])"
  using assms
  by (auto simp: register_user_try_def commit_def Let_def
      split: prod.splits option.splits
      dest!: cursor_frame issue_frame execute_INSERT_users_cases)

lemma register_user_users:
  "users (snd (register_user hashpw salt email password p)) = users p \<or>
   email \<notin> set (map u_email (users p)) \<and>
   (\<exists>i. users (snd (register_user hashpw salt email password p)) = users p @
      [\<lparr>u_id = i, u_email = email, u_password_hash = hashpw password salt\<rparr>])"
proof -
  obtain r p0 where c: "connect p = (r, p0)" by (cases "connect p")
  obtain t p1 where t: "register_user_try hashpw salt email password p0 = (t, p1)"
    by (cases "register_user_try hashpw salt email password p0")
  from connect_frame[OF c] register_user_try_users[OF t]
  show ?thesis
    by (auto simp: register_user_def c t split: option.splits sum.splits)
qed

lemma authenticate_user_users:
  "users (snd (authenticate_user checkpw email password p)) = users p"
  by (auto simp: authenticate_user_def authenticate_user_try_def
      execute_SELECT_password_hash_def
      split: prod.splits option.splits sum.splits
      dest!: connect_frame cursor_frame issue_frame)

lemma create_account_db_users:
  "users (snd (create_account_db name email balance p)) = users p"
  by (auto simp: create_account_db_def create_account_db_try_def
      execute_INSERT_accounts_def commit_def connect_clear_def
      split: prod.splits option.splits sum.splits
      dest!: connect_frame cursor_frame issue_frame)

lemma get_all_accounts_users:
  "users (snd (get_all_accounts p)) = users p"
  by (auto simp: get_all_accounts_def execute_SELECT_accounts_def emit_def
      split: prod.splits option.splits sum.splits
      dest!: connect_frame cursor_frame issue_frame)

lemma update_balance_execute_users:
  "users (snd (update_balance_execute sql i x operation p)) = users p"
  by (auto simp: update_balance_execute_def execute_update_def commit_def connect_clear_def
      Let_def split: prod.splits option.splits sum.splits
      dest!: issue_frame)

lemma update_balance_users:
  "users (snd (update_balance i x operation p)) = users p"
proof -
  obtain r p0 where c: "connect p = (r, p0)" by (cases "connect p")
  have "users (snd (update_balance_try i x operation p0)) = users p0"
    by (auto simp: update_balance_try_def execute_SELECT_balance_def
        update_balance_execute_users
        split: prod.splits option.splits sum.splits
        dest!: cursor_frame issue_frame)
  with connect_frame[OF c] show ?thesis
    by (auto simp: update_balance_def c split: prod.splits option.splits sum.splits)
qed

lemma get_balance_users:
  "users (snd (get_balance i p)) = users p"
  by (auto simp: get_balance_def get_balance_try_def execute_SELECT_name_balance_def
      split: prod.splits option.splits sum.splits
      dest!: connect_frame cursor_frame issue_frame)

lemma view_accounts_ui_users:
  "users (snd (view_accounts_ui p)) = users p"
  using get_all_accounts_users[of p]
  by (auto simp: view_accounts_ui_def emit_def split: prod.splits option.splits)

lemma transaction_ui_users:
  "users (snd (transaction_ui operation i x p)) = users p"
proof -
  obtain u p1 where u: "update_balance i x (upper operation) p = (u, p1)"
    by (cases "update_balance i x (upper operation) p")
  from update_balance_users[of i x "upper operation" p] u
  have u1: "users p1 = users p" by simp
  have g: "users (snd (get_balance i (emit e p1))) = users p" for e
    by (simp add: get_balance_users emit_def u1)
  show ?thesis
    using u1 g
    by (auto simp: transaction_ui_def u Let_def emit_def
        split: prod.splits option.splits payload.splits
        dest!: arg_cong[where f = snd])
qed

lemma stored_hash_append:
  "stored_hash p email = Some h \<Longrightarrow> users p' = users p @ ys \<Longrightarrow> stored_hash p' email = Some h"
  by (auto simp: stored_hash_def find_append_Some)

lemma stored_hash_step:
  assumes "step p p'" and "stored_hash p email = Some h"
  shows "stored_hash p' email = Some h"
  using assms
proof (cases rule: step.cases)
  case (register hashpw salt email' password)
  from register_user_users[of hashpw salt email' password p] register
  have "\<exists>ys. users p' = users p @ ys" by auto
  with assms(2) show ?thesis by (auto intro: stored_hash_append)
qed (simp_all add: stored_hash_def authenticate_user_users create_account_db_users
    get_all_accounts_users update_balance_users get_balance_users view_accounts_ui_users
    transaction_ui_users)

lemma stored_hash_steps:
  assumes "step\<^sup>*\<^sup>* p p'" and "stored_hash p email = Some h"
  shows "stored_hash p' email = Some h"
  using assms by (induction rule: rtranclp_induct) (auto intro: stored_hash_step)

lemma register_user_success:
  assumes "register_user hashpw salt email password p = (Some (True, m), p1)"
  shows "stored_hash p1 email = Some (hashpw password salt)"
proof -
  from assms obtain db p0 where c: "connect p = (Some db, p0)"
    by (cases "connect p") (auto simp: register_user_def split: option.splits)
  from assms c have t: "register_user_try hashpw salt email password p0 = (Inr (True, m), p1)"
    by (cases "register_user_try hashpw salt email password p0")
       (auto simp: register_user_def split: sum.splits if_splits)
  from register_user_try_success[OF t] obtain i where
    n: "email \<notin> set (map u_email (users p0))" and
    u: "users p1 = users p0 @ [\<lparr>u_id = i, u_email = email, u_password_hash = hashpw password salt\<rparr>]"
    by blast
  from n have "find (\<lambda>r. u_email r = email) (users p0) = None"
    by (auto simp: find_None_iff)
  then show ?thesis
    by (simp add: stored_hash_def u find_append_None)
qed

lemma register_user_existing:
  assumes "stored_hash p email = Some h"
  shows "users (snd (register_user hashpw salt email password p)) = users p"
    and "fst (register_user hashpw salt email password p) \<noteq> Some (True, m)"
    and "cache p \<noteq> None \<or> server p = [] \<Longrightarrow> faults p = [] \<Longrightarrow>
         fst (register_user hashpw salt email password p) = Some (False, Email_already_registered)"
proof -
  from assms have mem: "email \<in> set (map u_email (users p))"
    by (auto simp: stored_hash_def find_Some_iff)
  from register_user_users[of hashpw salt email password p] mem
  show "users (snd (register_user hashpw salt email password p)) = users p" by auto
  show "fst (register_user hashpw salt email password p) \<noteq> Some (True, m)"
  proof
    assume a: "fst (register_user hashpw salt email password p) = Some (True, m)"
    then have "register_user hashpw salt email password p =
                 (Some (True, m), snd (register_user hashpw salt email password p))"
      by (simp add: prod_eq_iff)
    from register_user_success[OF this]
    have "stored_hash (snd (register_user hashpw salt email password p)) email =
            Some (hashpw password salt)" .
    moreover from a obtain db p0 where c: "connect p = (Some db, p0)"
      by (cases "connect p") (auto simp: register_user_def split: option.splits)
    moreover from a c obtain p1 where
      t: "register_user_try hashpw salt email password p0 = (Inr (True, m), p1)"
      by (cases "register_user_try hashpw salt email password p0")
         (auto simp: register_user_def split: sum.splits if_splits)
    ultimately show False
      using register_user_try_success[OF t] connect_frame[OF c] mem by simp
  qed
  assume conn: "cache p \<noteq> None \<or> server p = []" and quiet: "faults p = []"
  have "\<exists>db p0. connect p = (Some db, p0) \<and> users p0 = users p \<and> faults p0 = faults p"
  proof (cases "cache p")
    case None
    with conn have "server p = []" by simp
    then show ?thesis by (rule connect_healthy) blast
  next
    case (Some db)
    then show ?thesis by (auto simp: connect_cached)
  qed
  then obtain db p0 where c: "connect p = (Some db, p0)" and u0: "users p0 = users p"
    and f0: "faults p0 = []" using quiet by auto
  from mem u0 have mem0: "email \<in> u_email ` set (users p0)" by simp
  have "fst (register_user_try hashpw salt email password p0) =
          Inl (duplicate_entry email ''users.email'')"
    using mem0 f0
    by (simp add: register_user_try_def cursor_quiet execute_INSERT_users_def issue_quiet Let_def)
  then show "fst (register_user hashpw salt email password p) = Some (False, Email_already_registered)"
    by (cases "register_user_try hashpw salt email password p0")
       (simp add: register_user_def c sublist_Duplicate_entry sublist_email)
qed

lemma authenticate_user_healthy:
  assumes "healthy p"
  shows "fst (authenticate_user checkpw email password p) =
           Some (case stored_hash p email of
                   None \<Rightarrow> (False, Email_not_found)
                 | Some h \<Rightarrow> if checkpw password h then (True, Credentials_verified)
                             else (False, Incorrect_password))"
proof -
  from assms have srv: "server p = []" and flt: "faults p = []"
    by (simp_all add: healthy_def)
  from srv obtain db p0 where c: "connect p = (Some db, p0)"
    and u0: "users p0 = users p" and f0: "faults p0 = faults p"
    by (rule connect_healthy)
  have q: "faults p0 = []" using f0 flt by simp
  show ?thesis
    using q
    by (simp add: authenticate_user_def c authenticate_user_try_def cursor_quiet
        execute_SELECT_password_hash_def issue_quiet fetchone_select stored_hash_def u0
        split: option.splits)
qed

lemmas demo_credentials =
  demo_registered_def demo_hashpw_def demo_checkpw_def demo_run
  register_user_def register_user_try_def execute_INSERT_users_def
  authenticate_user_def authenticate_user_try_def execute_SELECT_password_hash_def

lemma demo_registered_run:
  "register_user demo_hashpw ''salt'' ''a@x.com'' ''secret1'' demo_ledger =
     (Some (True, Registration_successful), demo_registered)"
  by (rule prod_eqI) (simp_all add: demo_credentials)

lemma demo_registered_healthy: "healthy demo_registered"
  by (simp add: healthy_def demo_credentials)

section \<open>Registration and authentication\<close>

text \<open>
  C6. Registering an email twice. After a registration of \<open>email\<close> has succeeded, and
  after any further calls of the application, a registration with the same email (any
  password, any salt) never succeeds and leaves the stored hash of the first registration
  in place; on a healthy store it fails with \<open>This email is already registered.\<close>
\<close>

theorem duplicate_email_rejected:
  assumes "register_user hashpw salt email password p = (Some (True, m), p1)"
      and "step\<^sup>*\<^sup>* p1 p2"
  shows "stored_hash p2 email = Some (hashpw password salt) \<and>
         stored_hash (snd (register_user hashpw' salt' email password' p2)) email =
           Some (hashpw password salt) \<and>
         (\<forall>m'. fst (register_user hashpw' salt' email password' p2) \<noteq> Some (True, m')) \<and>
         (healthy p2 \<longrightarrow>
            fst (register_user hashpw' salt' email password' p2) =
              Some (False, Email_already_registered))"
proof -
  from stored_hash_steps[OF assms(2) register_user_success[OF assms(1)]]
  have h: "stored_hash p2 email = Some (hashpw password salt)" .
  note e = register_user_existing[OF h, of hashpw' salt' password']
  from e(1) h
  have "stored_hash (snd (register_user hashpw' salt' email password' p2)) email =
          Some (hashpw password salt)"
    by (simp add: stored_hash_def)
  moreover have "fst (register_user hashpw' salt' email password' p2) =
              Some (False, Email_already_registered)" if "healthy p2"
    using that by (intro e(3)) (simp_all add: healthy_def)
  ultimately show ?thesis
    using h e(2) by blast
qed

theorem duplicate_email_rejected_witness:
  "register_user demo_hashpw ''salt'' ''a@x.com'' ''secret1'' demo_ledger =
     (Some (True, Registration_successful), demo_registered) \<and>
   healthy demo_registered \<and>
   fst (register_user demo_hashpw ''pepr'' ''a@x.com'' ''other12'' demo_registered) =
     Some (False, Email_already_registered) \<and>
   stored_hash (snd (register_user demo_hashpw ''pepr'' ''a@x.com'' ''other12'' demo_registered))
     ''a@x.com'' = Some ''saltsecret1''"
proof -
  have s: "step\<^sup>*\<^sup>* demo_registered demo_registered" by simp
  from duplicate_email_rejected[OF demo_registered_run s, of demo_hashpw "''pepr''" "''other12''"]
    demo_registered_run demo_registered_healthy
  show ?thesis by (simp add: demo_hashpw_def)
qed

text \<open>
  C7. Authentication. Let \<open>(email, password)\<close> have been registered successfully with
  salt \<open>salt\<close>, let any further calls of the application have run, and let the store be
  healthy. Assume of the hashing primitive that it verifies the registered password
  against its own hash and rejects every other password against that hash. Then
  \<open>authenticate_user\<close> succeeds for \<open>(email, password)\<close>, fails with
  \<open>Incorrect password.\<close> for every other password, and fails with \<open>Email not found.\<close>
  for every email that has no row in \<open>users\<close>.
\<close>

theorem authenticate_registered:
  assumes "register_user hashpw salt email password p = (Some (True, m), p1)"
      and "step\<^sup>*\<^sup>* p1 p2"
      and "healthy p2"
      and "checkpw password (hashpw password salt)"
      and "\<forall>other. other \<noteq> password \<longrightarrow> \<not> checkpw other (hashpw password salt)"
  shows "fst (authenticate_user checkpw email password p2) = Some (True, Credentials_verified) \<and>
         (\<forall>other. other \<noteq> password \<longrightarrow>
            fst (authenticate_user checkpw email other p2) = Some (False, Incorrect_password)) \<and>
         (\<forall>e pw. stored_hash p2 e = None \<longrightarrow>
            fst (authenticate_user checkpw e pw p2) = Some (False, Email_not_found))"
proof -
  from stored_hash_steps[OF assms(2) register_user_success[OF assms(1)]]
  have h: "stored_hash p2 email = Some (hashpw password salt)" .
  note a = authenticate_user_healthy[OF assms(3), of checkpw]
  show ?thesis
    using assms(4,5) h by (simp add: a)
qed

theorem authenticate_registered_witness:
  "register_user demo_hashpw ''salt'' ''a@x.com'' ''secret1'' demo_ledger =
     (Some (True, Registration_successful), demo_registered) \<and>
   healthy (snd (get_balance 1 demo_registered)) \<and>
   demo_checkpw ''secret1'' (demo_hashpw ''secret1'' ''salt'') \<and>
   \<not> demo_checkpw ''wrong'' (demo_hashpw ''secret1'' ''salt'') \<and>
   fst (authenticate_user demo_checkpw ''a@x.com'' ''secret1'' (snd (get_balance 1 demo_registered))) =
     Some (True, Credentials_verified) \<and>
   fst (authenticate_user demo_checkpw ''a@x.com'' ''wrong'' (snd (get_balance 1 demo_registered))) =
     Some (False, Incorrect_password) \<and>
   stored_hash (snd (get_balance 1 demo_registered)) ''b@x.com'' = None \<and>
   fst (authenticate_user demo_checkpw ''b@x.com'' ''secret1'' (snd (get_balance 1 demo_registered))) =
     Some (False, Email_not_found)"
proof -
  let ?p2 = "snd (get_balance 1 demo_registered)"
  have s: "step\<^sup>*\<^sup>* demo_registered ?p2"
    by (rule r_into_rtranclp) (rule step.balance)
  have h: "healthy ?p2"
    by (simp add: healthy_def demo_credentials)
  have c1: "demo_checkpw ''secret1'' (demo_hashpw ''secret1'' ''salt'')"
    by (simp add: demo_checkpw_def demo_hashpw_def)
  have c2: "\<forall>other. other \<noteq> ''secret1'' \<longrightarrow> \<not> demo_checkpw other (demo_hashpw ''secret1'' ''salt'')"
    by (simp add: demo_checkpw_def demo_hashpw_def)
  have n: "stored_hash ?p2 ''b@x.com'' = None"
    by (simp add: stored_hash_def get_balance_users demo_credentials)
  have w: "''wrong'' \<noteq> ''secret1''" by simp
  from authenticate_registered[where checkpw = demo_checkpw and hashpw = demo_hashpw,
      OF demo_registered_run s h c1 c2] demo_registered_run h c1 c2 n w
  show ?thesis by simp
qed

lemma connect_available:
  assumes "cache p \<noteq> None \<or> server p = []"
  obtains db p0 where "connect p = (Some db, p0)" "users p0 = users p" "accounts p0 = accounts p"
    "faults p0 = faults p" "issued p0 = issued p" "events p0 = events p" "cache p0 = Some db"
proof (cases "cache p")
  case None
  with assms have "server p = []" by simp
  then show ?thesis by (rule connect_healthy) (rule that; simp)
next
  case (Some db)
  show ?thesis
    by (rule that[OF connect_cached[OF Some]]) (simp_all add: Some)
qed

lemma get_all_accounts_error:
  assumes "cache p \<noteq> None \<or> server p = []"
      and "faults p = Some err # fs \<or> faults p = None # Some err # fs"
  shows "fst (get_all_accounts p) = Some ([], [])"
    and "events (snd (get_all_accounts p)) = events p @ [St_error (Error_fetching_accounts err)]"
    and "accounts (snd (get_all_accounts p)) = accounts p"
proof -
  from assms(1) obtain db p0 where c: "connect p = (Some db, p0)"
    and f0: "faults p0 = faults p" and e0: "events p0 = events p"
    and a0: "accounts p0 = accounts p"
    by (rule connect_available)
  from assms(2) f0 have f: "faults p0 = Some err # fs \<or> faults p0 = None # Some err # fs"
    by simp
  from f show "fst (get_all_accounts p) = Some ([], [])"
    by (auto simp: get_all_accounts_def c cursor_def execute_SELECT_accounts_def issue_def)
  from f show "events (snd (get_all_accounts p)) = events p @ [St_error (Error_fetching_accounts err)]"
    by (auto simp: get_all_accounts_def c cursor_def execute_SELECT_accounts_def issue_def
        emit_def e0)
  from f show "accounts (snd (get_all_accounts p)) = accounts p"
    by (auto simp: get_all_accounts_def c cursor_def execute_SELECT_accounts_def issue_def
        emit_def a0)
qed

lemma get_all_accounts_healthy:
  assumes "healthy p"
  shows "fst (get_all_accounts p) = Some ([''id'', ''name'', ''email'', ''balance''], accounts p)"
    and "events (snd (get_all_accounts p)) = events p"
proof -
  from assms have av: "cache p \<noteq> None \<or> server p = []" and flt: "faults p = []"
    by (simp_all add: healthy_def)
  from av obtain db p0 where c: "connect p = (Some db, p0)"
    and f0: "faults p0 = faults p" and e0: "events p0 = events p"
    and a0: "accounts p0 = accounts p"
    by (rule connect_available)
  from f0 flt have q: "faults p0 = []" by simp
  show "fst (get_all_accounts p) = Some ([''id'', ''name'', ''email'', ''balance''], accounts p)"
    by (simp add: get_all_accounts_def c cursor_quiet[OF q] execute_SELECT_accounts_def
        issue_quiet[OF q] a0)
  show "events (snd (get_all_accounts p)) = events p"
    by (simp add: get_all_accounts_def c cursor_quiet[OF q] execute_SELECT_accounts_def
        issue_quiet[OF q] e0)
qed

lemma view_accounts_ui_unfold:
  "view_accounts_ui p =
     (case fst (get_all_accounts p) of
        None \<Rightarrow> (None, snd (get_all_accounts p))
      | Some (column_names, all_rows) \<Rightarrow>
          if all_rows \<noteq> [] then (Some (), emit (St_data_editor column_names all_rows) (snd (get_all_accounts p)))
          else (Some (), emit (St_info No_accounts_found) (snd (get_all_accounts p))))"
  by (cases "get_all_accounts p") (simp add: view_accounts_ui_def split: option.splits)

section \<open>Listing the accounts\<close>

text \<open>
  C10, as the claim states it, fails: when the store raises, \<open>get_all_accounts\<close>
  returns the empty column list, whereas for a ledger without accounts it returns the
  four column names of the \<open>SELECT\<close> (with no rows); the two results differ.
\<close>

theorem store_error_vs_empty_ledger_counterexample:
  "accounts empty_ledger = [] \<and> healthy empty_ledger \<and>
   fst (get_all_accounts empty_ledger) = Some ([''id'', ''name'', ''email'', ''balance''], []) \<and>
   fst (get_all_accounts failing_ledger) = Some ([], []) \<and>
   fst (get_all_accounts failing_ledger) \<noteq> fst (get_all_accounts empty_ledger)"
  by (simp add: empty_ledger_def failing_ledger_def lost_connection_def healthy_def
      get_all_accounts_def execute_SELECT_accounts_def demo_run)

text \<open>
  C10, amended. Let a connection be available and let the store raise \<open>err\<close> at
  \<open>db.cursor()\<close> or at the \<open>SELECT\<close>. Then \<open>get_all_accounts\<close> shows
  \<open>st.error("Error fetching accounts: ...")\<close> and returns the empty column list and the
  empty row sequence, not an error value. On a healthy store with no accounts it returns
  the four column names and the empty row sequence, and shows nothing. The caller
  \<open>view_accounts_ui\<close>, which looks at the rows only, shows
  \<open>No accounts found in the database.\<close> in both cases.
\<close>

theorem store_error_lists_nothing:
  assumes "cache p \<noteq> None \<or> server p = []"
      and "faults p = Some err # fs \<or> faults p = None # Some err # fs"
      and "healthy q" and "accounts q = []"
  shows "fst (get_all_accounts p) = Some ([], []) \<and>
         events (snd (get_all_accounts p)) = events p @ [St_error (Error_fetching_accounts err)] \<and>
         fst (get_all_accounts q) = Some ([''id'', ''name'', ''email'', ''balance''], []) \<and>
         events (snd (get_all_accounts q)) = events q \<and>
         fst (view_accounts_ui p) = Some () \<and>
         events (snd (view_accounts_ui p)) =
           events p @ [St_error (Error_fetching_accounts err), St_info No_accounts_found] \<and>
         fst (view_accounts_ui q) = Some () \<and>
         events (snd (view_accounts_ui q)) = events q @ [St_info No_accounts_found]"
  using get_all_accounts_error[OF assms(1,2)] get_all_accounts_healthy[OF assms(3)] assms(4)
  by (simp add: view_accounts_ui_unfold emit_def)

theorem store_error_lists_nothing_witness:
  "server failing_ledger = [] \<and> faults failing_ledger = [None, Some lost_connection] \<and>
   healthy empty_ledger \<and> accounts empty_ledger = [] \<and>
   fst (get_all_accounts failing_ledger) = Some ([], []) \<and>
   events (snd (get_all_accounts failing_ledger)) =
     [St_error (Error_fetching_accounts lost_connection)] \<and>
   events (snd (view_accounts_ui failing_ledger)) =
     [St_error (Error_fetching_accounts lost_connection), St_info No_accounts_found] \<and>
   events (snd (view_accounts_ui empty_ledger)) = [St_info No_accounts_found]"
proof -
  have s: "cache failing_ledger \<noteq> None \<or> server failing_ledger = []"
    and s': "server failing_ledger = []"
    by (simp_all add: failing_ledger_def empty_ledger_def demo_ledger_def)
  have f: "faults failing_ledger = [None, Some lost_connection]"
    by (simp add: failing_ledger_def)
  then have f': "faults failing_ledger = Some lost_connection # []
      \<or> faults failing_ledger = None # Some lost_connection # []" by simp
  have h: "healthy empty_ledger" and a: "accounts empty_ledger = []"
    by (simp_all add: healthy_def empty_ledger_def demo_ledger_def)
  have e: "events failing_ledger = []" "events empty_ledger = []"
    by (simp_all add: failing_ledger_def empty_ledger_def demo_ledger_def)
  from store_error_lists_nothing[OF s f' h a] s' f h a e
  show ?thesis by simp
qed

lemma mysql_connect_calls:
  "connect_calls (snd (mysql_connect p)) = Suc (connect_calls p)"
  by (simp add: mysql_connect_def Let_def split: list.splits attempt_outcome.splits)

lemma connect_attempts_calls:
  "connect_calls p \<le> connect_calls (snd (connect_attempts as p)) \<and>
   connect_calls (snd (connect_attempts as p)) \<le> connect_calls p + length as"
proof (induction as arbitrary: p)
  case Nil
  show ?case by simp
next
  case (Cons a as)
  obtain o1 p1 where m: "mysql_connect p = (o1, p1)" by (cases "mysql_connect p")
  from mysql_connect_calls[of p] m have c1: "connect_calls p1 = Suc (connect_calls p)" by simp
  show ?case
  proof (cases o1)
    case (Inl err)
    let ?p2 = "emit (Sleep RETRY_DELAY) (emit (Print (Attempt_failed (a + 1) MAX_RETRIES err)) p1)"
    have "connect_calls ?p2 = Suc (connect_calls p)" by (simp add: emit_def c1)
    with Cons.IH[of ?p2] Inl m c1 show ?thesis
      by (auto simp: Let_def emit_def)
  next
    case (Inr hc)
    obtain h c where hc: "hc = (h, c)" by (cases hc)
    with Inr m c1 Cons.IH[of p1] show ?thesis by auto
  qed
qed

lemma connect_attempts_first_call:
  "connect_calls p < connect_calls (snd (connect_attempts (a # as) p))"
proof -
  obtain o1 p1 where m: "mysql_connect p = (o1, p1)" by (cases "mysql_connect p")
  from mysql_connect_calls[of p] m have c1: "connect_calls p1 = Suc (connect_calls p)" by simp
  show ?thesis
  proof (cases o1)
    case (Inl err)
    let ?p2 = "emit (Sleep RETRY_DELAY) (emit (Print (Attempt_failed (a + 1) MAX_RETRIES err)) p1)"
    have "connect_calls ?p2 = Suc (connect_calls p)" by (simp add: emit_def c1)
    with connect_attempts_calls[of ?p2 as] Inl m c1 show ?thesis
      by (auto simp: Let_def emit_def)
  next
    case (Inr hc)
    obtain h c where hc: "hc = (h, c)" by (cases hc)
    with Inr m c1 connect_attempts_calls[of p1 as] show ?thesis by auto
  qed
qed

lemma connect_uncached_calls:
  assumes "cache p = None"
  shows "connect_calls p < connect_calls (snd (connect p)) \<and>
         connect_calls (snd (connect p)) \<le> connect_calls p + MAX_RETRIES"
proof -
  have "[0..<MAX_RETRIES] = 0 # [1..<MAX_RETRIES]"
    by (simp add: MAX_RETRIES_def upt_rec)
  with connect_attempts_first_call[of p 0 "[1..<MAX_RETRIES]"]
  have a: "connect_calls p < connect_calls (snd (connect_attempts [0..<MAX_RETRIES] p))"
    by simp
  from connect_attempts_calls[of p "[0..<MAX_RETRIES]"]
  have b: "connect_calls (snd (connect_attempts [0..<MAX_RETRIES] p)) \<le> connect_calls p + MAX_RETRIES"
    by simp
  from a b show ?thesis
    by (cases "connect_attempts [0..<MAX_RETRIES] p")
       (auto simp: connect_def assms split: option.splits)
qed

lemma connect_caches:
  "connect p = (Some db, p') \<Longrightarrow> cache p' = Some db"
  by (auto simp: connect_def split: option.splits prod.splits)

lemma register_user_cached:
  assumes "cache p = Some db"
  shows "cache (snd (register_user hashpw salt email password p)) = Some db \<and>
         connect_calls (snd (register_user hashpw salt email password p)) = connect_calls p"
  using assms
  by (auto simp: register_user_def connect_cached register_user_try_def
      execute_INSERT_users_def commit_def Let_def
      split: prod.splits option.splits sum.splits if_splits
      dest!: cursor_frame issue_frame)

lemma authenticate_user_cached:
  assumes "cache p = Some db"
  shows "cache (snd (authenticate_user checkpw email password p)) = Some db \<and>
         connect_calls (snd (authenticate_user checkpw email password p)) = connect_calls p"
  using assms
  by (auto simp: authenticate_user_def connect_cached authenticate_user_try_def
      execute_SELECT_password_hash_def
      split: prod.splits option.splits sum.splits if_splits
      dest!: cursor_frame issue_frame)

lemma get_all_accounts_cached:
  assumes "cache p = Some db"
  shows "cache (snd (get_all_accounts p)) = Some db \<and>
         connect_calls (snd (get_all_accounts p)) = connect_calls p"
  using assms
  by (auto simp: get_all_accounts_def connect_cached execute_SELECT_accounts_def emit_def
      split: prod.splits option.splits sum.splits if_splits
      dest!: cursor_frame issue_frame)

lemma get_balance_cached:
  assumes "cache p = Some db"
  shows "cache (snd (get_balance i p)) = Some db \<and>
         connect_calls (snd (get_balance i p)) = connect_calls p"
  using assms
  by (auto simp: get_balance_def connect_cached get_balance_try_def
      execute_SELECT_name_balance_def
      split: prod.splits option.splits sum.splits if_splits
      dest!: cursor_frame issue_frame)

lemma create_account_db_cached:
  assumes "cache p = Some db"
  shows "cache (snd (create_account_db name email balance p)) =
           (if succeeded (fst (create_account_db name email balance p)) then None else Some db) \<and>
         connect_calls (snd (create_account_db name email balance p)) = connect_calls p"
  using assms
  by (auto simp: create_account_db_def connect_cached create_account_db_try_def
      execute_INSERT_accounts_def commit_def connect_clear_def succeeded_def
      split: prod.splits option.splits sum.splits if_splits
      dest!: cursor_frame issue_frame)

lemma update_balance_execute_cached:
  "update_balance_execute sql i x operation p = (r, p') \<Longrightarrow>
   connect_calls p' = connect_calls p \<and>
   cache p' = (if (\<exists>m. r = Inr (True, m)) then None else cache p)"
  by (auto simp: update_balance_execute_def execute_update_def commit_def connect_clear_def
      Let_def split: prod.splits option.splits sum.splits if_splits
      dest!: issue_frame)

lemma update_balance_try_cached:
  "update_balance_try i x operation p = (r, p') \<Longrightarrow>
   connect_calls p' = connect_calls p \<and>
   cache p' = (if (\<exists>m. r = Inr (True, m)) then None else cache p)"
  by (auto simp: update_balance_try_def execute_SELECT_balance_def
      split: prod.splits option.splits sum.splits if_splits
      dest!: cursor_frame issue_frame update_balance_execute_cached)

lemma update_balance_cached:
  assumes "cache p = Some db"
  shows "cache (snd (update_balance i x operation p)) =
           (if succeeded (fst (update_balance i x operation p)) then None else Some db) \<and>
         connect_calls (snd (update_balance i x operation p)) = connect_calls p"
proof -
  obtain r p' where t: "update_balance_try i x operation p = (r, p')"
    by (cases "update_balance_try i x operation p")
  from update_balance_try_cached[OF t] assms show ?thesis
    by (cases r) (auto simp: update_balance_def connect_cached t succeeded_def)
qed

lemma demo_connect:
  "connect demo_ledger =
     (Some 0, demo_ledger\<lparr>server := [], connect_calls := Suc 0, cache := Some 0\<rparr>)"
proof -
  have "cache demo_ledger = None" "server demo_ledger = []" "connect_calls demo_ledger = 0"
    by (simp_all add: demo_ledger_def)
  with connect_fresh[of demo_ledger] show ?thesis by simp
qed

lemma demo_connected_deposit:
  "fst (update_balance 1 (dyadic 25) ''DEPOSIT''
          (demo_ledger\<lparr>server := [], connect_calls := Suc 0, cache := Some 0\<rparr>)) =
     Some (True, Successful ''DEPOSITED'')"
proof -
  let ?p1 = "demo_ledger\<lparr>server := [], connect_calls := Suc 0, cache := Some 0\<rparr>"
  have h: "healthy ?p1" and d: "distinct (map a_id (accounts ?p1))"
    and b: "balance_of ?p1 1 = Some 10000" and a: "arith ?p1 = decimal2"
    by (simp_all add: healthy_def balance_of_def demo_ledger_def)
  from deposit_healthy(1)[OF h d b, of "dyadic 25"] show ?thesis
    by (simp only: a demo_values) simp
qed

lemma mysql_connect_Raises:
  "server p = Raises e # rest \<Longrightarrow>
   mysql_connect p = (Inl e, p\<lparr>server := rest, connect_calls := Suc (connect_calls p)\<rparr>)"
  by (simp add: mysql_connect_def Let_def)

lemma mysql_connect_live:
  "server p = [] \<or> (\<exists>rest. server p = Opens True # rest) \<Longrightarrow>
   mysql_connect p =
     (Inr (connect_calls p, True), p\<lparr>server := tl (server p), connect_calls := Suc (connect_calls p)\<rparr>)"
  by (auto simp: mysql_connect_def Let_def)

lemma connect_attempts_raises_then_opens:
  assumes "k + length errs < MAX_RETRIES"
      and "server p = map Raises errs @ tail"
      and "tail = [] \<or> (\<exists>rest. tail = Opens True # rest)"
  shows "fst (connect_attempts [k..<MAX_RETRIES] p) = Some (connect_calls p + length errs) \<and>
         connect_calls (snd (connect_attempts [k..<MAX_RETRIES] p)) =
           connect_calls p + length errs + 1 \<and>
         events (snd (connect_attempts [k..<MAX_RETRIES] p)) =
           events p @ concat (map (\<lambda>(i, e). [Print (Attempt_failed (i + 1) MAX_RETRIES e),
                                                Sleep RETRY_DELAY])
                                (zip [k..<k + length errs] errs))"
  using assms
proof (induction errs arbitrary: k p)
  case Nil
  then have k: "k < MAX_RETRIES" and live: "server p = [] \<or> (\<exists>rest. server p = Opens True # rest)"
    by auto
  from k have u: "[k..<MAX_RETRIES] = k # [Suc k..<MAX_RETRIES]"
    by (rule upt_conv_Cons)
  show ?case
    by (simp add: u mysql_connect_live[OF live])
next
  case (Cons e es)
  then have k: "k < MAX_RETRIES" and k1: "k < MAX_RETRIES - 1"
    and srv: "server p = Raises e # (map Raises es @ tail)"
    by auto
  from k have u: "[k..<MAX_RETRIES] = k # [Suc k..<MAX_RETRIES]"
    by (rule upt_conv_Cons)
  let ?q = "emit (Sleep RETRY_DELAY)
              (emit (Print (Attempt_failed (k + 1) MAX_RETRIES e))
                 (p\<lparr>server := map Raises es @ tail, connect_calls := Suc (connect_calls p)\<rparr>))"
  have step: "connect_attempts [k..<MAX_RETRIES] p = connect_attempts [Suc k..<MAX_RETRIES] ?q"
    using k1 by (simp add: u mysql_connect_Raises[OF srv] Let_def)
  have q: "server ?q = map Raises es @ tail" "connect_calls ?q = Suc (connect_calls p)"
    "events ?q = events p @ [Print (Attempt_failed (k + 1) MAX_RETRIES e), Sleep RETRY_DELAY]"
    by (simp_all add: emit_def)
  define R where "R = connect_attempts [Suc k..<MAX_RETRIES] ?q"
  define Z where "Z = zip [Suc k..<Suc k + length es] es"
  from Cons.prems have "Suc k + length es < MAX_RETRIES" by simp
  from Cons.IH[OF this q(1) Cons.prems(3)]
  have ih: "fst R = Some (Suc (connect_calls p) + length es) \<and>
         connect_calls (snd R) = Suc (connect_calls p) + length es + 1 \<and>
         events (snd R) =
           (events p @ [Print (Attempt_failed (k + 1) MAX_RETRIES e), Sleep RETRY_DELAY]) @
           concat (map (\<lambda>(i, e). [Print (Attempt_failed (i + 1) MAX_RETRIES e),
                                   Sleep RETRY_DELAY]) Z)"
    by (simp only: q(2,3) R_def Z_def)
  have "[k..<k + length (e # es)] = k # [Suc k..<Suc k + length es]"
    by (subst upt_rec) simp
  then have z: "zip [k..<k + length (e # es)] (e # es) = (k, e) # Z"
    by (simp only: Z_def zip_Cons_Cons)
  have step': "connect_attempts [k..<MAX_RETRIES] p = R"
    by (simp only: step R_def)
  show ?case
    unfolding step' z using ih by simp
qed

lemma connect_attempts_all_raise:
  assumes "server p = Raises e1 # Raises e2 # Raises e3 # Raises e4 # Raises e5 # rest"
  shows "connect_attempts [0..<MAX_RETRIES] p =
           (None, p\<lparr>server := rest, connect_calls := connect_calls p + 5,
                     events := events p @
                       [Print (Attempt_failed 1 5 e1), Sleep 2,
                        Print (Attempt_failed 2 5 e2), Sleep 2,
                        Print (Attempt_failed 3 5 e3), Sleep 2,
                        Print (Attempt_failed 4 5 e4), Sleep 2,
                        Print (Attempt_failed 5 5 e5), St_error Connection_failed]\<rparr>)"
  using assms
  by (simp add: range_MAX_RETRIES range_MAX_RETRIES[unfolded MAX_RETRIES_def]
      mysql_connect_def Let_def emit_def MAX_RETRIES_def RETRY_DELAY_def)

section \<open>The cached connection\<close>

text \<open>
  C5, as the claim states it, fails: after a successful \<open>update_balance\<close>, which calls
  \<open>connect.clear()\<close>, the next \<open>connect()\<close> opens a second connection and returns a
  different handle.
\<close>

theorem connect_not_memoized_counterexample:
  "fst (connect demo_ledger) = Some 0 \<and>
   connect_calls (snd (connect demo_ledger)) = 1 \<and>
   fst (update_balance 1 (dyadic 25) ''DEPOSIT'' (snd (connect demo_ledger))) =
     Some (True, Successful ''DEPOSITED'') \<and>
   fst (connect (snd (update_balance 1 (dyadic 25) ''DEPOSIT'' (snd (connect demo_ledger))))) = Some 1 \<and>
   connect_calls (snd (connect (snd (update_balance 1 (dyadic 25) ''DEPOSIT'' (snd (connect demo_ledger)))))) = 2 \<and>
   fst (connect (snd (update_balance 1 (dyadic 25) ''DEPOSIT'' (snd (connect demo_ledger))))) \<noteq>
     fst (connect demo_ledger)"
proof -
  let ?p1 = "demo_ledger\<lparr>server := [], connect_calls := Suc 0, cache := Some 0\<rparr>"
  let ?p2 = "snd (update_balance 1 (dyadic 25) ''DEPOSIT'' ?p1)"
  have c1: "cache ?p1 = Some 0" by simp
  have h1: "healthy ?p1" by (simp add: healthy_def demo_ledger_def)
  from update_balance_cached[OF c1, of 1 "dyadic 25" "''DEPOSIT''"]
  have c2: "cache ?p2 = None" and k2: "connect_calls ?p2 = Suc 0"
    by (simp_all add: demo_connected_deposit succeeded_def)
  from healthy_update_balance[OF h1, of 1 "dyadic 25" "''DEPOSIT''"]
  have s2: "server ?p2 = []" by (simp add: healthy_def)
  from connect_fresh[OF c2 s2]
  have "fst (connect ?p2) = Some 1" "connect_calls (snd (connect ?p2)) = 2"
    by (simp_all add: k2)
  then show ?thesis
    by (simp add: demo_connect demo_connected_deposit)
qed

text \<open>
  C5, amended. \<open>connect\<close> is memoized until the cache is cleared. A call on an empty
  cache makes at least one and at most \<open>MAX_RETRIES\<close> connection attempts, and a handle
  it returns is cached: the next call returns the same handle and changes nothing. While
  a handle is cached, \<open>register_user\<close>, \<open>authenticate_user\<close>, \<open>get_all_accounts\<close>
  and \<open>get_balance\<close> keep it cached and make no connection attempt;
  \<open>update_balance\<close> and \<open>create_account_db\<close> make no connection attempt either, keep
  the handle when they fail and clear the cache when they succeed, so that the next call
  of \<open>connect\<close> reconnects.
\<close>

theorem memoized_until_cleared:
  "(cache p = None \<longrightarrow>
      connect_calls p < connect_calls (snd (connect p)) \<and>
      connect_calls (snd (connect p)) \<le> connect_calls p + MAX_RETRIES) \<and>
   (\<forall>db p'. connect p = (Some db, p') \<longrightarrow> cache p' = Some db \<and> connect p' = (Some db, p')) \<and>
   (\<forall>db. cache p = Some db \<longrightarrow>
      connect p = (Some db, p) \<and>
      cache (snd (register_user hashpw salt email password p)) = Some db \<and>
      connect_calls (snd (register_user hashpw salt email password p)) = connect_calls p \<and>
      cache (snd (authenticate_user checkpw email password p)) = Some db \<and>
      connect_calls (snd (authenticate_user checkpw email password p)) = connect_calls p \<and>
      cache (snd (get_all_accounts p)) = Some db \<and>
      connect_calls (snd (get_all_accounts p)) = connect_calls p \<and>
      cache (snd (get_balance acc_id p)) = Some db \<and>
      connect_calls (snd (get_balance acc_id p)) = connect_calls p \<and>
      cache (snd (update_balance acc_id amount operation p)) =
        (if succeeded (fst (update_balance acc_id amount operation p)) then None else Some db) \<and>
      connect_calls (snd (update_balance acc_id amount operation p)) = connect_calls p \<and>
      cache (snd (create_account_db name email' balance p)) =
        (if succeeded (fst (create_account_db name email' balance p)) then None else Some db) \<and>
      connect_calls (snd (create_account_db name email' balance p)) = connect_calls p)"
proof (intro conjI allI impI)
  fix db p'
  assume c: "connect p = (Some db, p')"
  then show "cache p' = Some db" by (rule connect_caches)
  then show "connect p' = (Some db, p')" by (rule connect_cached)
qed (simp_all add: connect_uncached_calls connect_cached register_user_cached
    authenticate_user_cached get_all_accounts_cached get_balance_cached
    update_balance_cached create_account_db_cached)

theorem memoized_until_cleared_witness:
  "cache demo_ledger = None \<and>
   connect demo_ledger = (Some 0, snd (connect demo_ledger)) \<and>
   cache (snd (connect demo_ledger)) = Some 0 \<and>
   connect (snd (connect demo_ledger)) = (Some 0, snd (connect demo_ledger)) \<and>
   cache (snd (get_balance 1 (snd (connect demo_ledger)))) = Some 0 \<and>
   connect_calls (snd (get_balance 1 (snd (connect demo_ledger)))) = 1 \<and>
   succeeded (fst (update_balance 1 (dyadic 25) ''DEPOSIT'' (snd (connect demo_ledger)))) \<and>
   cache (snd (update_balance 1 (dyadic 25) ''DEPOSIT'' (snd (connect demo_ledger)))) = None"
proof -
  let ?p1 = "snd (connect demo_ledger)"
  have n: "cache demo_ledger = None"
    by (simp add: demo_ledger_def)
  have c: "connect demo_ledger = (Some 0, ?p1)"
    by (rule prod_eqI) (simp_all add: demo_run)
  have k: "connect_calls ?p1 = 1"
    by (simp add: demo_run)
  have s: "succeeded (fst (update_balance 1 (dyadic 25) ''DEPOSIT'' ?p1))"
    by (simp add: succeeded_def demo_connect demo_connected_deposit)
  note m0 = memoized_until_cleared[where p = demo_ledger, THEN conjunct2, THEN conjunct1,
      rule_format, OF c]
  note m1 = memoized_until_cleared[where p = ?p1 and acc_id = 1 and amount = "dyadic 25"
      and operation = "''DEPOSIT''", THEN conjunct2,
      THEN conjunct2, rule_format, OF conjunct1[OF m0]]
  from m0 m1 n c k s show ?thesis by simp
qed

section \<open>Retrying the connection\<close>

text \<open>
  C3, at the failing inputs. When four attempts raise and the fifth returns a connection
  object whose \<open>is_connected()\<close> is false, \<open>connect\<close> has made five attempts and stops
  the run, but shows no error message: the log holds the four console lines and the four
  sleeps only. When all five attempts return such an object, it stops the run without any
  sleep and without any message.
\<close>

theorem connect_halts_without_message:
  "fst (connect stale_server) = None \<and>
   connect_calls (snd (connect stale_server)) = 5 \<and>
   events (snd (connect stale_server)) =
     [Print (Attempt_failed 1 5 refused), Sleep 2, Print (Attempt_failed 2 5 refused), Sleep 2,
      Print (Attempt_failed 3 5 refused), Sleep 2, Print (Attempt_failed 4 5 refused), Sleep 2] \<and>
   St_error Connection_failed \<notin> set (events (snd (connect stale_server))) \<and>
   fst (connect unconnected_server) = None \<and>
   connect_calls (snd (connect unconnected_server)) = 5 \<and>
   events (snd (connect unconnected_server)) = []"
  by (simp add: stale_server_def unconnected_server_def refused_def demo_ledger_def connect_def
      range_MAX_RETRIES range_MAX_RETRIES[unfolded MAX_RETRIES_def] mysql_connect_def Let_def
      emit_def MAX_RETRIES_def RETRY_DELAY_def)

end
